theory Spec2Isabelle
  imports Complex_Main "HOL-Library.Log_Nat" "HOL-Library.Char_ord" "HOL-Library.Product_Lexorder"
begin

section \<open>Python values\<close>

text \<open>
  Exceptions are values. Every function of the source that the claims reach wraps its
  body in \<^verbatim>\<open>try: ... except Exception\<close>, so a raise inside ends in the handler's return.
\<close>

datatype py_exn = ValueError | KeyError | TypeError | OverflowError | OSError

text \<open>
  \<^verbatim>\<open>str.isdigit()\<close> and \<^verbatim>\<open>int(s)\<close> on a string of one character. A \<^typ>\<open>char\<close> is
  read as the code point of the same number (Latin-1). The superscripts at 178, 179 and
  185 are digits for \<^verbatim>\<open>isdigit\<close>, and \<^verbatim>\<open>int\<close> raises ValueError on them.
\<close>

definition isdigit :: "char \<Rightarrow> bool" where
  "isdigit c = (let n = (of_char c :: nat)
                in (48 \<le> n \<and> n \<le> 57) \<or> n = 178 \<or> n = 179 \<or> n = 185)"

definition int_of_str1 :: "char \<Rightarrow> py_exn + int" where
  "int_of_str1 c = (let n = (of_char c :: nat)
                    in if 48 \<le> n \<and> n \<le> 57 then Inr (int n - 48) else Inl ValueError)"

definition startswith :: "string \<Rightarrow> char \<Rightarrow> bool" where
  "startswith s c = (case s of [] \<Rightarrow> False | x # _ \<Rightarrow> x = c)"

text \<open>\<^verbatim>\<open>str(n)\<close> of an integer: decimal digits, a minus sign first when negative.\<close>

fun str_nat :: "nat \<Rightarrow> string" where
  "str_nat n = (if n < 10 then [char_of (48 + n)]
                else str_nat (n div 10) @ [char_of (48 + n mod 10)])"

declare str_nat.simps [simp del]

definition str_int :: "int \<Rightarrow> string" where
  "str_int i = (if i < 0 then CHR ''-'' # str_nat (nat (- i)) else str_nat (nat i))"

subsection \<open>Double precision\<close>

text \<open>
  A Python float is an IEEE 754 binary64 number, here the rational it denotes. Each
  arithmetic operation returns the exact result rounded to the nearest double, ties to
  the even significand: 53 bits, the least exponent of a unit in the last place
  \<open>-1074\<close>. Overflow is left out: no value of this program comes near \<open>2 ^ 1024\<close>.
  \<open>ilog2 x\<close> is the integer part of the binary logarithm of a positive rational.
\<close>

definition ilog2 :: "rat \<Rightarrow> int" where
  "ilog2 x = (let (n, d) = quotient_of x; k = bitlen n - bitlen d
              in if 2 powi k \<le> x then k else k - 1)"

definition round_half_even :: "rat \<Rightarrow> int" where
  "round_half_even y =
     (let f = \<lfloor>y\<rfloor>; r = y - of_int f
      in if r < 1 / 2 then f else if 1 / 2 < r then f + 1 else if even f then f else f + 1)"

definition fl :: "rat \<Rightarrow> rat" where
  "fl x = (if x = 0 then 0
           else let e = max (ilog2 \<bar>x\<bar> - 52) (- 1074)
                in of_int (round_half_even (x / 2 powi e)) * 2 powi e)"

text \<open>\<^verbatim>\<open>int(x)\<close> of a float truncates toward zero.\<close>

definition py_int :: "rat \<Rightarrow> int" where
  "py_int q = (if 0 \<le> q then \<lfloor>q\<rfloor> else \<lceil>q\<rceil>)"

section \<open>The host's context\<close>

text \<open>
  \<^verbatim>\<open>self.app_contexts\<close>, refreshed by the host on every tick. \<open>Current_Time\<close> is the
  string \<^verbatim>\<open>'%H:%M:%S'\<close> as \<^verbatim>\<open>strptime(...).time()\<close> reads it: seconds since midnight.
  \<open>Current_Part\<close> is the pair (node start datetime or None, node index); a naive datetime
  is its count of seconds, and \<^verbatim>\<open>.time()\<close> keeps the seconds of the day. Times have the
  resolution of one second, as the host's clock string has. \<open>Timeline_Data\<close> is a dict
  from activity ids to minutes, in insertion order.
\<close>

record app_contexts =
  Current_Time :: int
  Current_Part :: "int option \<times> int"
  Timeline_Data :: "(string \<times> int) list"
  State :: int
  Current_Lesson :: "string option"
  Current_Lessons :: "(string \<times> string) list"

definition time_of :: "int \<Rightarrow> int" where
  "time_of dt = dt mod 86400"

text \<open>
  The count of seconds of a datetime starts at 0001-01-01 00:00:00, the least datetime of
  Python; the greatest, at this resolution, is 9999-12-31 23:59:59, the last second of
  day 3652059. \<^verbatim>\<open>datetime.today()\<close> is a read of the clock: \<open>today\<close> is the ordinal of its
  date (\<^verbatim>\<open>toordinal()\<close>, 1 for 0001-01-01), taken once for each run of a resolver.
  \<^verbatim>\<open>datetime.combine(today, t)\<close> never raises. \<^verbatim>\<open>dt + timedelta(minutes=n)\<close> raises
  OverflowError when the sum is no datetime (or when \<open>n\<close> is too large for a timedelta,
  and then the sum is none either).
\<close>

definition datetime_max :: int where
  "datetime_max = 3652059 * 86400 - 1"

definition combine :: "int \<Rightarrow> int \<Rightarrow> int" where
  "combine today t = (today - 1) * 86400 + t"

definition add_minutes :: "int \<Rightarrow> int \<Rightarrow> py_exn + int" where
  "add_minutes dt n =
     (if 0 \<le> dt + 60 * n \<and> dt + 60 * n \<le> datetime_max then Inr (dt + 60 * n)
      else Inl OverflowError)"

section \<open>The timeline (lines 624-845)\<close>

text \<open>
  Both resolvers start alike: keep the entries of the node (the second character of the
  id is the node index), sort them by (sequence number, type), and walk the sorted list
  adding the minutes to the datetime of today's date at the node's start.
\<close>

definition node_activities_of :: "(string \<times> int) list \<Rightarrow> int \<Rightarrow> (string \<times> int) list" where
  "node_activities_of timeline_data node_index =
     filter (\<lambda>(key, duration). 2 \<le> length key \<and> [key ! 1] = str_int node_index) timeline_data"

definition activity_sort_key :: "string \<times> int \<Rightarrow> py_exn + (int \<times> char)" where
  "activity_sort_key item =
     (let activity_id = fst item;
          activity_number = (if 3 \<le> length activity_id then activity_id ! 2 else CHR ''0'');
          activity_type = activity_id ! 0
      in if isdigit activity_number
         then (case int_of_str1 activity_number of
                 Inl e \<Rightarrow> Inl e
               | Inr n \<Rightarrow> Inr (n, activity_type))
         else Inr (0, activity_type))"

text \<open>
  \<^verbatim>\<open>list.sort(key=...)\<close> computes every key first (a raise leaves the call), then sorts
  stably; \<^const>\<open>sort_key\<close> is a stable sort, and pairs are ordered lexicographically.
\<close>

definition sort_activities :: "(string \<times> int) list \<Rightarrow> py_exn + (string \<times> int) list" where
  "sort_activities node_activities =
     (if list_all (\<lambda>item. \<not> isl (activity_sort_key item)) node_activities
      then Inr (sort_key (\<lambda>item. projr (activity_sort_key item)) node_activities)
      else Inl ValueError)"

definition first_lesson :: "(string \<times> int) list \<Rightarrow> string option" where
  "first_lesson activities =
     map_option fst (find (\<lambda>(activity_id, _). startswith activity_id CHR ''a'') activities)"

subsection \<open>get_current_activity_time_info (lines 728-845)\<close>

record activity_time =
  at_start :: int
  at_end :: int
  duration_minutes :: int
  duration_seconds :: int

text \<open>
  The loop of lines 775-784. The sum \<^verbatim>\<open>current_time_accumulated + timedelta(...)\<close> is
  computed at line 777 and again at line 784, with the same value or the same raise.
\<close>

fun build_activity_times ::
  "int \<Rightarrow> (string \<times> int) list \<Rightarrow> (string \<rightharpoonup> activity_time)
     \<Rightarrow> py_exn + (string \<rightharpoonup> activity_time) \<times> int" where
  "build_activity_times acc [] activity_times = Inr (activity_times, acc)"
| "build_activity_times acc ((activity_id, duration) # rest) activity_times =
     (case add_minutes acc duration of
        Inl e \<Rightarrow> Inl e
      | Inr next_acc \<Rightarrow>
          build_activity_times next_acc rest
            (activity_times(activity_id \<mapsto>
               \<lparr>at_start = time_of acc, at_end = time_of next_acc,
                duration_minutes = duration, duration_seconds = duration * 60\<rparr>)))"

text \<open>The search loop of lines 817-825: the first entry whose window holds the time.\<close>

fun find_current_activity ::
  "(string \<rightharpoonup> activity_time) \<Rightarrow> int \<Rightarrow> (string \<times> int) list \<Rightarrow> py_exn + (string \<times> int) option" where
  "find_current_activity activity_times current_time [] = Inr None"
| "find_current_activity activity_times current_time ((activity_id, duration) # rest) =
     (case activity_times activity_id of
        None \<Rightarrow> Inl KeyError
      | Some t \<Rightarrow>
          if at_start t \<le> current_time \<and> current_time < at_end t
          then Inr (Some (activity_id, if startswith activity_id CHR ''f'' then 0 else 1))
          else find_current_activity activity_times current_time rest)"

type_synonym time_info = "int option \<times> int option \<times> string option \<times> int option"

definition no_time_info :: time_info where
  "no_time_info = (None, None, None, None)"

text \<open>
  A raise anywhere in the body ends in the handler of lines 843-845, which returns four
  None. The differences of lines 801 and 834 are between two datetimes of today and
  cannot raise.
\<close>

definition get_current_activity_time_info :: "int \<Rightarrow> 'a app_contexts_scheme \<Rightarrow> time_info" where
  "get_current_activity_time_info today ctx =
     (let current_time = Current_Time ctx;
          (node_start_datetime, node_index) = Current_Part ctx
      in case node_start_datetime of
           None \<Rightarrow> no_time_info
         | Some dt \<Rightarrow>
            (let node_start_time = time_of dt;
                 node_activities = node_activities_of (Timeline_Data ctx) node_index
             in if node_activities = [] then no_time_info
                else
                 (case sort_activities node_activities of
                    Inl e \<Rightarrow> no_time_info
                  | Inr sorted_activities \<Rightarrow>
                     (case build_activity_times (combine today node_start_time)
                             sorted_activities Map.empty of
                        Inl e \<Rightarrow> no_time_info
                      | Inr (activity_times, acc) \<Rightarrow>
                         (let node_end_time = time_of acc
                          in if current_time < node_start_time
                             then (None, Some (max 0 (node_start_time - current_time)),
                                   Some (fst (hd sorted_activities)), Some 0)
                             else if node_end_time \<le> current_time then no_time_info
                             else
                              (case find_current_activity activity_times current_time
                                      sorted_activities of
                                 Inl e \<Rightarrow> no_time_info
                               | Inr None \<Rightarrow> no_time_info
                               | Inr (Some (current_activity_id, current_state)) \<Rightarrow>
                                  (case activity_times current_activity_id of
                                     None \<Rightarrow> no_time_info
                                   | Some t \<Rightarrow>
                                       (Some (duration_seconds t),
                                        Some (max 0 (at_end t - current_time)),
                                        Some current_activity_id, Some current_state))))))))"

subsection \<open>calculate_current_course (lines 624-726)\<close>

fun build_activity_start_times ::
  "int \<Rightarrow> (string \<times> int) list \<Rightarrow> (string \<rightharpoonup> int) \<Rightarrow> py_exn + (string \<rightharpoonup> int) \<times> int" where
  "build_activity_start_times acc [] activity_start_times = Inr (activity_start_times, acc)"
| "build_activity_start_times acc ((activity_id, duration) # rest) activity_start_times =
     (case add_minutes acc duration of
        Inl e \<Rightarrow> Inl e
      | Inr next_acc \<Rightarrow>
          build_activity_start_times next_acc rest
            (activity_start_times(activity_id \<mapsto> time_of acc)))"

text \<open>
  The loop of lines 697-713. The end of a window is computed anew from today's date and
  the stored start (lines 699-700), which can raise as well. In a break window the id is
  the next lesson after the break (\<^verbatim>\<open>node_activities[i+1:]\<close>), or stays None; either
  way the loop ends there.
\<close>

fun scan_current_course ::
  "int \<Rightarrow> (string \<rightharpoonup> int) \<Rightarrow> int \<Rightarrow> (string \<times> int) list \<Rightarrow> py_exn + string option" where
  "scan_current_course today activity_start_times current_time [] = Inr None"
| "scan_current_course today activity_start_times current_time ((activity_id, duration) # rest) =
     (case activity_start_times activity_id of
        None \<Rightarrow> Inl KeyError
      | Some start_time \<Rightarrow>
         (case add_minutes (combine today start_time) duration of
            Inl e \<Rightarrow> Inl e
          | Inr end_datetime \<Rightarrow>
              let activity_end_time = time_of end_datetime
              in if start_time \<le> current_time \<and> current_time < activity_end_time
                 then (if startswith activity_id CHR ''f'' then Inr (first_lesson rest)
                       else Inr (Some activity_id))
                 else scan_current_course today activity_start_times current_time rest))"

text \<open>A raise ends in the handler of lines 724-726, which returns None.\<close>

definition calculate_current_course :: "int \<Rightarrow> 'a app_contexts_scheme \<Rightarrow> string option" where
  "calculate_current_course today ctx =
     (let current_time = Current_Time ctx;
          (node_start_datetime, node_index) = Current_Part ctx
      in case node_start_datetime of
           None \<Rightarrow> None
         | Some dt \<Rightarrow>
            (let node_start_time = time_of dt;
                 node_activities = node_activities_of (Timeline_Data ctx) node_index
             in if node_activities = [] then None
                else
                 (case sort_activities node_activities of
                    Inl e \<Rightarrow> None
                  | Inr sorted_activities \<Rightarrow>
                     (case build_activity_start_times (combine today node_start_time)
                             sorted_activities Map.empty of
                        Inl e \<Rightarrow> None
                      | Inr (activity_start_times, acc) \<Rightarrow>
                         (let node_end_time = time_of acc
                          in if current_time < node_start_time
                             then first_lesson sorted_activities
                             else if node_end_time \<le> current_time then None
                             else
                              (case scan_current_course today activity_start_times current_time
                                      sorted_activities of
                                 Inl e \<Rightarrow> None
                               | Inr (Some current_activity_id) \<Rightarrow> Some current_activity_id
                               | Inr None \<Rightarrow> first_lesson (rev sorted_activities)))))))"

section \<open>The input monitor (GlobalEventFilter, lines 44-156)\<close>

text \<open>
  One poll reads the operating system three times: the cursor position
  (\<^verbatim>\<open>GetCursorPos\<close>, None when the call fails or raises), the three mouse buttons
  (\<^verbatim>\<open>GetAsyncKeyState(vk) & 0x8000 != 0\<close> for the codes 1, 2 and 4, each None when the
  call raises), and the table of all key codes built by \<^verbatim>\<open>get_key_states\<close>, which is
  the empty dict when a query raises (\<open>keys_held\<close> is None then). \<open>emitted\<close> counts the
  \<^verbatim>\<open>user_activity_detected.emit()\<close> calls.
\<close>

record os_sample =
  cursor_pos :: "(int \<times> int) option"
  button_held :: "nat \<Rightarrow> bool option"
  keys_held :: "(nat \<Rightarrow> bool) option"

record global_event_filter =
  last_mouse_pos :: "(int \<times> int) option"
  last_key_state :: "(nat \<times> bool) list"
  emitted :: nat

definition get_key_states :: "'a os_sample_scheme \<Rightarrow> (nat \<times> bool) list" where
  "get_key_states os =
     (case keys_held os of
        None \<Rightarrow> []
      | Some held \<Rightarrow> map (\<lambda>vk_code. (vk_code, held vk_code)) [1..<256])"

text \<open>The object after \<^verbatim>\<open>__init__\<close> (lines 50-55) and the first reads of lines 71-72.\<close>

definition initial_filter :: global_event_filter where
  "initial_filter = \<lparr>last_mouse_pos = None, last_key_state = [], emitted = 0\<rparr>"

definition start_listening :: "'a os_sample_scheme \<Rightarrow> global_event_filter \<Rightarrow> global_event_filter" where
  "start_listening os self =
     self\<lparr>last_mouse_pos := cursor_pos os, last_key_state := get_key_states os\<rparr>"

definition dict_get :: "('k \<times> 'v) list \<Rightarrow> 'k \<Rightarrow> 'v \<Rightarrow> 'v" where
  "dict_get d k dflt = (case map_of d k of None \<Rightarrow> dflt | Some v \<Rightarrow> v)"

text \<open>
  Lines 114-118, the three button queries in their order and the test on them. They are
  not guarded on their own: a raise leaves \<open>check_user_activity\<close> through its handler.
\<close>

definition mouse_buttons :: "'a os_sample_scheme \<Rightarrow> py_exn + bool" where
  "mouse_buttons os =
     (case button_held os 0x01 of
        None \<Rightarrow> Inl OSError
      | Some left_click \<Rightarrow>
         (case button_held os 0x02 of
            None \<Rightarrow> Inl OSError
          | Some right_click \<Rightarrow>
             (case button_held os 0x04 of
                None \<Rightarrow> Inl OSError
              | Some middle_click \<Rightarrow> Inr (left_click \<or> right_click \<or> middle_click))))"

text \<open>
  The loop of lines 125-131 over \<^verbatim>\<open>current_key_states.items()\<close>: it emits once and
  breaks at the first key that is pressed now, was not pressed at the last poll, and is
  none of the five codes of line 128. The result says whether it emitted.
\<close>

fun key_press_emits :: "(nat \<times> bool) list \<Rightarrow> (nat \<times> bool) list \<Rightarrow> bool" where
  "key_press_emits last_state [] = False"
| "key_press_emits last_state ((vk_code, pressed) # rest) =
     (if pressed \<and> \<not> dict_get last_state vk_code False
      then (if vk_code \<notin> set [0x10, 0x11, 0x12, 0x5B, 0x5C] then True
            else key_press_emits last_state rest)
      else key_press_emits last_state rest)"

definition emit :: "global_event_filter \<Rightarrow> global_event_filter" where
  "emit self = self\<lparr>emitted := Suc (emitted self)\<rparr>"

text \<open>
  When a button query raises, nothing was emitted yet and lines 134-135 are not reached:
  the handler of lines 137-138 leaves the object as it was.
\<close>

definition check_user_activity :: "'a os_sample_scheme \<Rightarrow> global_event_filter \<Rightarrow> global_event_filter" where
  "check_user_activity os self =
     (let current_mouse_pos = cursor_pos os
      in case (if current_mouse_pos \<noteq> None \<and> last_mouse_pos self \<noteq> None \<and>
                  current_mouse_pos \<noteq> last_mouse_pos self
               then mouse_buttons os else Inr False) of
           Inl e \<Rightarrow> self
         | Inr clicked \<Rightarrow>
            (let self1 = (if clicked then emit self else self);
                 current_key_states = get_key_states os;
                 self2 =
                   (if last_key_state self \<noteq> []
                    then (if key_press_emits (last_key_state self) current_key_states
                          then emit self1 else self1)
                    else self1)
             in self2\<lparr>last_mouse_pos := current_mouse_pos,
                      last_key_state := current_key_states\<rparr>))"

section \<open>The countdown ring (lines 3593-3603 and 3737-3747)\<close>

text \<open>
  The percentage handed to the progress animation: 100 when the total is None (not
  started); for a positive total the quotient of two ints (a correctly rounded double),
  times 100 (rounded again), through \<^verbatim>\<open>int\<close>, clamped to 0..100. For any other total the
  ring is left as it is (None here).
\<close>

definition progress_percentage :: "int option \<Rightarrow> int \<Rightarrow> int option" where
  "progress_percentage total_seconds remaining_seconds =
     (case total_seconds of
        None \<Rightarrow> Some 100
      | Some seconds \<Rightarrow>
          if 0 < seconds
          then Some (max 0 (min 100
                 (py_int (fl (fl (of_int (seconds - remaining_seconds) / of_int seconds) * 100)))))
          else None)"

section \<open>The plugin object\<close>

text \<open>
  The fields of \<^verbatim>\<open>Plugin\<close> (src/main.py, \<^verbatim>\<open>__init__\<close>, lines 204-265) that the
  automation engine, the overlay modes and the pointer auto-hide read or write.
  A Qt object held in a field is modelled by what the code asks of it: a widget by its
  presence (\<^verbatim>\<open>if self.blackboard_widget\<close>), the tip window by its presence and its
  \<^verbatim>\<open>isVisible()\<close>, a timer by whether it still runs, a running close animation by a
  flag. Python floats are the rationals they denote. \<open>single_shots\<close> holds the callbacks
  handed to \<^verbatim>\<open>QTimer.singleShot\<close> that are still due. The last three fields are no
  fields of the source: they record the calls the plugin makes to its collaborators, so
  that "was called exactly once" can be stated. The tip texts are Chinese sentences in
  the source and are named here.
\<close>

datatype qtimer = Running | Fired

datatype cursor_call = SetBlankCursor | UnsetCursor

datatype tip_message =
  SwitchToBlackboardTip | SwitchToWhiteboardTip | CloseSpecialModeTip | InterruptedTip

datatype single_shot = ShowInterruptionSuccess | CloseTipWindow

record lesson_settings =
  setting_time :: "int option"
  setting_click :: "string option"
  setting_mode :: "string option"

record plugin =
  is_blackboard_mode :: bool
  is_whiteboard_mode :: bool
  blackboard_widget :: bool
  whiteboard_widget :: bool
  automation_settings :: "(string \<times> lesson_settings) list"
  current_lesson_name :: "string option"
  previous_lesson_name :: "string option"
  lesson_start_time :: "rat option"
  user_activity_detected :: bool
  automation_triggered :: bool
  tip_window :: "bool option"
  tip_timer :: "qtimer option"
  tip_close_animation_group :: bool
  current_automation_mode :: "string option"
  realtime_check_timer :: "qtimer option"
  mouse_hidden :: bool
  mouse_stationary_time :: rat
  last_mouse_position :: "(int \<times> int) option"
  single_shots :: "single_shot list"
  mode_switch_calls :: "string option list"
  tip_messages :: "tip_message list"
  cursor_calls :: "cursor_call list"

text \<open>The object as \<^verbatim>\<open>__init__\<close> leaves it.\<close>

definition initial_plugin :: plugin where
  "initial_plugin =
     \<lparr>is_blackboard_mode = False, is_whiteboard_mode = False,
      blackboard_widget = False, whiteboard_widget = False,
      automation_settings = [], current_lesson_name = None, previous_lesson_name = None,
      lesson_start_time = None, user_activity_detected = False, automation_triggered = False,
      tip_window = None, tip_timer = None, tip_close_animation_group = False,
      current_automation_mode = None, realtime_check_timer = None,
      mouse_hidden = False, mouse_stationary_time = 0, last_mouse_position = None,
      single_shots = [], mode_switch_calls = [], tip_messages = [], cursor_calls = []\<rparr>"

text \<open>
  What the plugin finds outside itself when it builds a window. For the tip window: the
  \<^verbatim>\<open>.ui\<close> file is missing, \<^verbatim>\<open>uic.loadUi\<close> raises, it returns None, or the window loads
  and is shown. For an overlay: the file is missing, the load raises or returns None,
  the load succeeds and a later step of the initialisation fails (the layout is not
  found, or a call raises), the initialisation succeeds and a call of the show method
  raises before the flag is set, or all of it succeeds.
\<close>

datatype ui_load = UiMissing | UiLoadRaises | UiLoadsNone | UiLoads

datatype overlay_ui =
  OverlayUiMissing | OverlayLoadFails | OverlayInitFails | OverlayShowFails | OverlayUiLoads

record host_env =
  tips_ui :: ui_load
  blackboard_ui :: overlay_ui
  whiteboard_ui :: overlay_ui

subsection \<open>get_current_mode (lines 1907-1914)\<close>

definition get_current_mode :: "'a plugin_scheme \<Rightarrow> string" where
  "get_current_mode self =
     (if is_blackboard_mode self then ''blackboard''
      else if is_whiteboard_mode self then ''whiteboard''
      else ''none'')"

subsection \<open>The pointer auto-hide (lines 3891-3993)\<close>


definition show_mouse :: "plugin \<Rightarrow> plugin" where
  "show_mouse self =
     (if mouse_hidden self
      then (if is_blackboard_mode self \<and> blackboard_widget self
            then self\<lparr>cursor_calls := cursor_calls self @ [UnsetCursor], mouse_hidden := False\<rparr>
            else if is_whiteboard_mode self \<and> whiteboard_widget self
            then self\<lparr>cursor_calls := cursor_calls self @ [UnsetCursor], mouse_hidden := False\<rparr>
            else self)
      else self)"

definition init_mouse_detection :: "plugin \<Rightarrow> plugin" where
  "init_mouse_detection self =
     self\<lparr>mouse_hidden := False, mouse_stationary_time := 0, last_mouse_position := None\<rparr>"

definition stop_mouse_detection :: "plugin \<Rightarrow> plugin" where
  "stop_mouse_detection self =
     self\<lparr>mouse_hidden := False, mouse_stationary_time := 0, last_mouse_position := None\<rparr>"




subsection \<open>The overlay modes (lines 3187-3431)\<close>

text \<open>
  Showing an overlay builds its widget (which restarts the pointer detection) and sets
  the flag; closing starts a fade-out whose end (\<open>on_blackboard_animation_finished\<close>) drops
  the widget and clears the flag. \<open>init_blackboard_ui\<close> (lines 2676-2754) drops a widget
  left from before, assigns the loaded one at line 2700, and starts the pointer
  detection as its last step; it returns whether it succeeded. \<open>init_whiteboard_ui\<close>
  (lines 2756-2834) is the same for the other overlay.
\<close>

definition init_blackboard_ui :: "'e host_env_scheme \<Rightarrow> plugin \<Rightarrow> bool \<times> plugin" where
  "init_blackboard_ui env self =
     (case blackboard_ui env of
        OverlayUiMissing \<Rightarrow> (False, self)
      | OverlayLoadFails \<Rightarrow> (False, self\<lparr>blackboard_widget := False\<rparr>)
      | OverlayInitFails \<Rightarrow> (False, self\<lparr>blackboard_widget := True\<rparr>)
      | OverlayShowFails \<Rightarrow> (True, init_mouse_detection (self\<lparr>blackboard_widget := True\<rparr>))
      | OverlayUiLoads \<Rightarrow> (True, init_mouse_detection (self\<lparr>blackboard_widget := True\<rparr>)))"

definition show_blackboard :: "'e host_env_scheme \<Rightarrow> plugin \<Rightarrow> plugin" where
  "show_blackboard env self =
     (if is_blackboard_mode self then self
      else (let (ok, self) = init_blackboard_ui env self
            in if \<not> ok then self
               else if blackboard_ui env = OverlayShowFails then self
               else self\<lparr>is_blackboard_mode := True\<rparr>))"

definition close_blackboard :: "plugin \<Rightarrow> plugin" where
  "close_blackboard self =
     (if \<not> is_blackboard_mode self \<or> \<not> blackboard_widget self then self
      else stop_mouse_detection (show_mouse self))"

definition on_blackboard_animation_finished :: "plugin \<Rightarrow> plugin" where
  "on_blackboard_animation_finished self =
     (stop_mouse_detection self)\<lparr>blackboard_widget := False, is_blackboard_mode := False\<rparr>"

definition init_whiteboard_ui :: "'e host_env_scheme \<Rightarrow> plugin \<Rightarrow> bool \<times> plugin" where
  "init_whiteboard_ui env self =
     (case whiteboard_ui env of
        OverlayUiMissing \<Rightarrow> (False, self)
      | OverlayLoadFails \<Rightarrow> (False, self\<lparr>whiteboard_widget := False\<rparr>)
      | OverlayInitFails \<Rightarrow> (False, self\<lparr>whiteboard_widget := True\<rparr>)
      | OverlayShowFails \<Rightarrow> (True, init_mouse_detection (self\<lparr>whiteboard_widget := True\<rparr>))
      | OverlayUiLoads \<Rightarrow> (True, init_mouse_detection (self\<lparr>whiteboard_widget := True\<rparr>)))"

definition show_whiteboard :: "'e host_env_scheme \<Rightarrow> plugin \<Rightarrow> plugin" where
  "show_whiteboard env self =
     (if is_whiteboard_mode self then self
      else (let (ok, self) = init_whiteboard_ui env self
            in if \<not> ok then self
               else if whiteboard_ui env = OverlayShowFails then self
               else self\<lparr>is_whiteboard_mode := True\<rparr>))"

definition close_whiteboard :: "plugin \<Rightarrow> plugin" where
  "close_whiteboard self =
     (if \<not> is_whiteboard_mode self \<or> \<not> whiteboard_widget self then self
      else stop_mouse_detection (show_mouse self))"

definition on_whiteboard_animation_finished :: "plugin \<Rightarrow> plugin" where
  "on_whiteboard_animation_finished self =
     (stop_mouse_detection self)\<lparr>whiteboard_widget := False, is_whiteboard_mode := False\<rparr>"

subsection \<open>execute_mode_switch (lines 1968-2001)\<close>

definition execute_mode_switch :: "'e host_env_scheme \<Rightarrow> string option \<Rightarrow> plugin \<Rightarrow> plugin" where
  "execute_mode_switch env mode self =
     (let self = self\<lparr>mode_switch_calls := mode_switch_calls self @ [mode]\<rparr>
      in if mode = Some ''blackboard''
         then (if \<not> is_blackboard_mode self then show_blackboard env self else self)
         else if mode = Some ''whiteboard''
         then (if \<not> is_whiteboard_mode self then show_whiteboard env self else self)
         else (let self = (if is_blackboard_mode self then close_blackboard self else self)
               in if is_whiteboard_mode self then close_whiteboard self else self))"

subsection \<open>The tip window (lines 2003-2349)\<close>

text \<open>
  The Qt calls on a window that was loaded (its flags, its geometry, its animations)
  are taken to succeed, so the handlers of these methods are reached from the load of
  the \<^verbatim>\<open>.ui\<close> file only.
\<close>

definition close_tip_window :: "plugin \<Rightarrow> plugin" where
  "close_tip_window self =
     (let self = self\<lparr>realtime_check_timer := None\<rparr>
      in if tip_window self = None then self\<lparr>tip_timer := None\<rparr>
         else self\<lparr>tip_close_animation_group := True\<rparr>)"

definition finish_close_tip_window :: "plugin \<Rightarrow> plugin" where
  "finish_close_tip_window self =
     self\<lparr>current_automation_mode := None, realtime_check_timer := None, tip_window := None,
          tip_close_animation_group := False, tip_timer := None\<rparr>"

definition reset_user_activity_state :: "plugin \<Rightarrow> plugin" where
  "reset_user_activity_state self = self\<lparr>user_activity_detected := False\<rparr>"

definition record_user_activity :: "plugin \<Rightarrow> plugin" where
  "record_user_activity self =
     (if \<not> user_activity_detected self then self\<lparr>user_activity_detected := True\<rparr> else self)"

text \<open>
  \<open>show_tip_window\<close> closes a window that may be open, clears the activity flag, stores
  the mode, loads and shows the window, and starts the 20 ms check and the single-shot
  timer of 5000 ms. When the file is missing it returns at line 2032; when the load
  raises, the assignment of line 2035 does not happen and the handler of line 2116
  returns: in both cases a window that was open stays in the field, with its close
  animation running. When the load returns None, the field holds None.
\<close>

definition show_tip_window :: "'e host_env_scheme \<Rightarrow> tip_message \<Rightarrow> string \<Rightarrow> plugin \<Rightarrow> plugin" where
  "show_tip_window env message mode self =
     (let self = close_tip_window self;
          self = reset_user_activity_state self;
          self = self\<lparr>current_automation_mode := Some mode\<rparr>
      in case tips_ui env of
           UiMissing \<Rightarrow> self
         | UiLoadRaises \<Rightarrow> self
         | UiLoadsNone \<Rightarrow> self\<lparr>tip_window := None\<rparr>
         | UiLoads \<Rightarrow>
             self\<lparr>tip_window := Some True, tip_messages := tip_messages self @ [message],
                  realtime_check_timer := Some Running, tip_timer := Some Running\<rparr>)"

definition handle_immediate_interruption :: "plugin \<Rightarrow> plugin" where
  "handle_immediate_interruption self =
     (let self = self\<lparr>realtime_check_timer := None, tip_timer := None\<rparr>;
          self = close_tip_window self
      in self\<lparr>single_shots := single_shots self @ [ShowInterruptionSuccess]\<rparr>)"

definition check_realtime_user_activity :: "plugin \<Rightarrow> plugin" where
  "check_realtime_user_activity self =
     (if tip_window self = None \<or> tip_window self = Some False
      then self\<lparr>realtime_check_timer := None\<rparr>
      else if user_activity_detected self then handle_immediate_interruption self
      else self)"

definition show_interruption_success :: "'e host_env_scheme \<Rightarrow> plugin \<Rightarrow> plugin" where
  "show_interruption_success env self =
     (let self = show_tip_window env InterruptedTip ''none'' self
      in self\<lparr>single_shots := single_shots self @ [CloseTipWindow]\<rparr>)"

definition on_tip_timeout :: "'e host_env_scheme \<Rightarrow> plugin \<Rightarrow> plugin" where
  "on_tip_timeout env self =
     (let self = self\<lparr>realtime_check_timer := None\<rparr>
      in if user_activity_detected self then handle_immediate_interruption self
         else close_tip_window (execute_mode_switch env (current_automation_mode self) self))"

subsection \<open>The automation engine (lines 1781-1941)\<close>

definition trigger_automation :: "'e host_env_scheme \<Rightarrow> string \<Rightarrow> plugin \<Rightarrow> plugin" where
  "trigger_automation env target_mode self =
     (if get_current_mode self = target_mode then self
      else (let message =
                  (if target_mode = ''blackboard'' then SwitchToBlackboardTip
                   else if target_mode = ''whiteboard'' then SwitchToWhiteboardTip
                   else CloseSpecialModeTip)
            in show_tip_window env message target_mode self))"

text \<open>
  Lines 1884-1891. A remaining time of None meets \<^verbatim>\<open><=\<close> with an int: TypeError.
\<close>

definition should_trigger :: "int \<Rightarrow> rat \<Rightarrow> int option \<Rightarrow> py_exn + bool" where
  "should_trigger trigger_time elapsed_time remaining_seconds =
     (if 0 < trigger_time then Inr (of_int trigger_time \<le> elapsed_time)
      else case remaining_seconds of
             None \<Rightarrow> Inl TypeError
           | Some remaining \<Rightarrow> Inr (remaining \<le> \<bar>trigger_time\<bar>))"

text \<open>
  \<open>check_automation_trigger\<close> has no handler of its own: a raise leaves it and is caught
  by \<open>handle_automation\<close>. \<open>time_time\<close> is \<^verbatim>\<open>time.time()\<close>, and \<open>today\<close> the date that the
  time information reads from the clock. The settings of a
  lesson are a JSON object with the optional keys time, click and mode; it is falsy when
  it has none of them. The 4-tuple that \<open>get_current_activity_time_info\<close> returns is
  never falsy, so the test of line 1865 never returns.
\<close>

definition check_automation_trigger ::
  "'e host_env_scheme \<Rightarrow> rat \<Rightarrow> int \<Rightarrow> 'a app_contexts_scheme \<Rightarrow> plugin \<Rightarrow> py_exn + plugin" where
  "check_automation_trigger env time_time today ctx self =
     (case current_lesson_name self of
        None \<Rightarrow> Inr self
      | Some name \<Rightarrow>
         (if name = [] then Inr self
          else if automation_triggered self then Inr self
          else
           (case map_of (automation_settings self) name of
              None \<Rightarrow> Inr self
            | Some lesson_settings \<Rightarrow>
               (if setting_time lesson_settings = None \<and> setting_click lesson_settings = None
                   \<and> setting_mode lesson_settings = None
                then Inr self
                else
                 (let trigger_time =
                        (case setting_time lesson_settings of None \<Rightarrow> 0 | Some t \<Rightarrow> t);
                      click_required =
                        ((case setting_click lesson_settings of None \<Rightarrow> ''False'' | Some c \<Rightarrow> c)
                           = ''True'');
                      target_mode =
                        (case setting_mode lesson_settings of None \<Rightarrow> ''none'' | Some m \<Rightarrow> m)
                  in if get_current_mode self = target_mode
                     then Inr (self\<lparr>automation_triggered := True\<rparr>)
                     else
                      (let remaining_seconds =
                             fst (snd (get_current_activity_time_info today ctx));
                           elapsed_time =
                             (case lesson_start_time self of
                                None \<Rightarrow> 0
                              | Some start \<Rightarrow> (if start = 0 then 0 else fl (time_time - start)))
                       in (case should_trigger trigger_time elapsed_time remaining_seconds of
                             Inl e \<Rightarrow> Inl e
                           | Inr False \<Rightarrow> Inr self
                           | Inr True \<Rightarrow>
                              (if \<not> click_required \<and> user_activity_detected self
                               then Inr (self\<lparr>automation_triggered := True\<rparr>)
                               else Inr ((trigger_automation env target_mode self)
                                           \<lparr>automation_triggered := True\<rparr>)))))))))"

text \<open>
  Lines 1804-1831. \<open>automation_timer\<close> is None from the constructor on and nothing assigns
  it, so the branch of line 1814 is never taken and the field is left out of the record;
  the log lines of 1823-1828 change nothing. \<open>handle_automation\<close> (lines 1781-1802) reads
  the clock once more in \<open>check_automation_trigger\<close>; the two reads of one tick are taken
  to be the same instant.
\<close>

definition on_lesson_changed :: "rat \<Rightarrow> plugin \<Rightarrow> plugin" where
  "on_lesson_changed time_time self =
     (let self = self\<lparr>lesson_start_time := Some time_time, user_activity_detected := False,
                      automation_triggered := False\<rparr>;
          self = (if tip_window self \<noteq> None then close_tip_window self else self)
      in self\<lparr>previous_lesson_name := current_lesson_name self\<rparr>)"

definition handle_automation ::
  "'e host_env_scheme \<Rightarrow> rat \<Rightarrow> int \<Rightarrow> 'a app_contexts_scheme \<Rightarrow> plugin \<Rightarrow> plugin" where
  "handle_automation env time_time today ctx self =
     (let self = self\<lparr>current_lesson_name := Current_Lesson ctx\<rparr>;
          self =
            (if current_lesson_name self = None \<or> current_lesson_name self = Some []
             then (case calculate_current_course today ctx of
                     None \<Rightarrow> self
                   | Some current_course_id \<Rightarrow>
                       self\<lparr>current_lesson_name := map_of (Current_Lessons ctx) current_course_id\<rparr>)
             else self);
          self = (if current_lesson_name self \<noteq> previous_lesson_name self
                  then on_lesson_changed time_time self else self)
      in case check_automation_trigger env time_time today ctx self of
           Inl e \<Rightarrow> self
         | Inr self' \<Rightarrow> self')"

subsection \<open>The event loop\<close>

text \<open>
  Everything runs on Qt's one thread, one callback after another. An event is a callback
  that the loop may run: the host's tick (with the clock, the date and the context), an
  emission
  of the input monitor, a timeout of the 20 ms check, the timeout of the single-shot 5000
  ms timer, the end of the tip window's close animation, and a due
  \<^verbatim>\<open>QTimer.singleShot\<close> callback. A timer that was stopped or dropped delivers nothing,
  and a single-shot timer delivers once.
\<close>

datatype event =
  Tick rat int app_contexts
  | UserActivity
  | RealtimeCheck
  | TipTimeout
  | TipCloseFinished
  | SingleShotDue single_shot

definition deliver :: "'e host_env_scheme \<Rightarrow> event \<Rightarrow> plugin \<Rightarrow> plugin" where
  "deliver env ev self =
     (case ev of
        Tick time_time today ctx \<Rightarrow> handle_automation env time_time today ctx self
      | UserActivity \<Rightarrow> record_user_activity self
      | RealtimeCheck \<Rightarrow>
          if realtime_check_timer self = Some Running then check_realtime_user_activity self
          else self
      | TipTimeout \<Rightarrow>
          if tip_timer self = Some Running
          then on_tip_timeout env (self\<lparr>tip_timer := Some Fired\<rparr>)
          else self
      | TipCloseFinished \<Rightarrow>
          if tip_close_animation_group self then finish_close_tip_window self else self
      | SingleShotDue cb \<Rightarrow>
          if cb \<in> set (single_shots self)
          then (let self = self\<lparr>single_shots := remove1 cb (single_shots self)\<rparr>
                in case cb of
                     ShowInterruptionSuccess \<Rightarrow> show_interruption_success env self
                   | CloseTipWindow \<Rightarrow> close_tip_window self)
          else self)"

fun run :: "'e host_env_scheme \<Rightarrow> event list \<Rightarrow> plugin \<Rightarrow> plugin" where
  "run env [] self = self"
| "run env (ev # evs) self = run env evs (deliver env ev self)"

section \<open>Auxiliary definitions for the statements\<close>

text \<open>
  The window that the loop of lines 775-784 stores for the entry at position \<open>i\<close> of the
  sorted list, written in closed form: the minutes before it, added to the start.
\<close>

definition window_at :: "int \<Rightarrow> (string \<times> int) list \<Rightarrow> nat \<Rightarrow> activity_time" where
  "window_at acc xs i =
     \<lparr>at_start = time_of (acc + 60 * sum_list (map snd (take i xs))),
      at_end = time_of (acc + 60 * sum_list (map snd (take (Suc i) xs))),
      duration_minutes = snd (xs ! i), duration_seconds = snd (xs ! i) * 60\<rparr>"

text \<open>
  The window that the loop of lines 775-784 leaves in the dict under an id, for today's
  date, the node's start and the sorted entries; None when the loop raises or the id is
  no key.
\<close>

definition activity_window ::
  "int \<Rightarrow> int \<Rightarrow> (string \<times> int) list \<Rightarrow> string \<Rightarrow> activity_time option" where
  "activity_window today dt acts k =
     (case build_activity_times (combine today (time_of dt)) acts Map.empty of
        Inl e \<Rightarrow> None
      | Inr (activity_times, acc) \<Rightarrow> activity_times k)"

text \<open>
  The search loop of lines 817-825 with the windows recomputed from the running sum
  instead of read from the dict.
\<close>

fun find_from :: "int \<Rightarrow> int \<Rightarrow> (string \<times> int) list \<Rightarrow> (string \<times> int) option" where
  "find_from acc now [] = None"
| "find_from acc now ((k, d) # rest) =
     (if time_of acc \<le> now \<and> now < time_of (acc + 60 * d)
      then Some (k, if startswith k CHR ''f'' then 0 else 1)
      else find_from (acc + 60 * d) now rest)"

text \<open>
  The loops of lines 775-784 and 674-676 run to their end when every running sum of the
  minutes, from today's date at the node's start, is a datetime.
\<close>

fun representable :: "int \<Rightarrow> (string \<times> int) list \<Rightarrow> bool" where
  "representable acc [] = True"
| "representable acc ((k, d) # rest) =
     (0 \<le> acc + 60 * d \<and> acc + 60 * d \<le> datetime_max \<and> representable (acc + 60 * d) rest)"

text \<open>
  Two constants of the error analysis of the countdown ring: half a unit in the last
  place of a double in [1, 2), and the least positive quotient of the ring.
\<close>

definition ulp53 :: rat where "ulp53 = 1 / 2 ^ 53"
definition v44 :: rat where "v44 = 1 / 2 ^ 44"

text \<open>
  An overlay is on screen when its flag is set and its widget exists. \<open>stationary_after n\<close>
  is the running sum of the pointer detector after \<open>n\<close> polls without movement.
\<close>

definition overlay_active :: "plugin \<Rightarrow> bool" where
  "overlay_active self =
     ((is_blackboard_mode self \<and> blackboard_widget self) \<or>
      (is_whiteboard_mode self \<and> whiteboard_widget self))"


text \<open>
  The confirmation window is open and waiting: the tip window is shown, and the 20 ms
  check and the single-shot timer of 5000 ms both run.
\<close>

definition armed :: "plugin \<Rightarrow> bool" where
  "armed self =
     (tip_window self = Some True \<and> realtime_check_timer self = Some Running \<and>
      tip_timer self = Some Running)"

text \<open>
  A rule with the offset \<open>t\<close> is due at a tick (lines 1872-1891): a positive offset when
  the lesson has lasted \<open>t\<close> seconds on the clock, any other offset when at most \<open>|t|\<close>
  seconds of the current activity remain.
\<close>

definition due :: "int \<Rightarrow> rat \<Rightarrow> int \<Rightarrow> 'a app_contexts_scheme \<Rightarrow> plugin \<Rightarrow> bool" where
  "due t time_time today ctx self =
     (if 0 < t
      then (case lesson_start_time self of
              None \<Rightarrow> False
            | Some start \<Rightarrow> start \<noteq> 0 \<and> of_int t \<le> fl (time_time - start))
      else (case fst (snd (get_current_activity_time_info today ctx)) of
              None \<Rightarrow> False
            | Some remaining \<Rightarrow> remaining \<le> \<bar>t\<bar>))"

text \<open>
  The events that leave an open confirmation window as it is: a 20 ms check, a tick of
  the host that reports the lesson the plugin is in (the one it recorded at the last
  tick), the end of a close animation when none runs, and a single-shot callback that is
  not pending. None of them is an activity sample, the deadline, or a change of lesson.
\<close>

definition quiet :: "plugin \<Rightarrow> event \<Rightarrow> bool" where
  "quiet self ev =
     (case ev of
        Tick time_time today ctx \<Rightarrow>
          Current_Lesson ctx = current_lesson_name self \<and>
          previous_lesson_name self = current_lesson_name self
      | UserActivity \<Rightarrow> False
      | RealtimeCheck \<Rightarrow> True
      | TipTimeout \<Rightarrow> False
      | TipCloseFinished \<Rightarrow> \<not> tip_close_animation_group self
      | SingleShotDue cb \<Rightarrow> cb \<notin> set (single_shots self))"

text \<open>
  Example inputs: the first of September 2025 as today's date, and a node at 08:00 whose
  first entry in sorted order is a break.
\<close>

definition example_today :: int where
  "example_today = 739495"

definition ctx_break_first :: app_contexts where
  "ctx_break_first =
     \<lparr>Current_Time = 28740, Current_Part = (Some 28800, 0),
      Timeline_Data = [(''f00'', 10), (''a01'', 45), (''f01'', 10), (''a12'', 40)],
      State = 1, Current_Lesson = None, Current_Lessons = []\<rparr>"

text \<open>
  A node at 08:00 that runs for 25 hours: a lesson of one hour, a break of 23 hours and a
  second lesson of one hour.
\<close>

definition timeline_past_midnight :: "(string \<times> int) list" where
  "timeline_past_midnight = [(''a00'', 60), (''f00'', 1380), (''a01'', 60)]"

text \<open>A table whose entries of node 0 are not in their sorted order.\<close>

definition timeline_shuffled :: "(string \<times> int) list" where
  "timeline_shuffled =
     [(''f01'', 10), (''a01'', 45), (''a12'', 40), (''f00'', 10), (''a00'', 40)]"

text \<open>
  A sample of the input monitor with the pointer at (10, 20) and the given codes held,
  in the key table and in the button queries alike: the code 1 is the left mouse button,
  16 is Shift, 160 is left Shift, 65 is the key A. \<open>pressed_codes\<close> lists the codes of the
  key table that a sample holds.
\<close>

definition sample_holding :: "nat list \<Rightarrow> os_sample" where
  "sample_holding codes =
     \<lparr>cursor_pos = Some (10, 20), button_held = (\<lambda>vk. Some (vk \<in> set codes)),
      keys_held = Some (\<lambda>vk. vk \<in> set codes)\<rparr>"

definition pressed_codes :: "'a os_sample_scheme \<Rightarrow> nat list" where
  "pressed_codes os = map fst (filter snd (get_key_states os))"

text \<open>
  Example inputs of the automation engine: a host whose windows load, a context in the
  lesson \<open>Math\<close>, the same context without a node anchor, and a plugin whose only rule is
  for \<open>Math\<close>, in that lesson since 1000 s on the clock.
\<close>

definition example_env :: host_env where
  "example_env =
     \<lparr>tips_ui = UiLoads, blackboard_ui = OverlayUiLoads, whiteboard_ui = OverlayUiLoads\<rparr>"

definition ctx_math :: app_contexts where
  "ctx_math =
     \<lparr>Current_Time = 30000, Current_Part = (Some 28800, 0),
      Timeline_Data = [(''a00'', 45), (''f00'', 10)],
      State = 1, Current_Lesson = Some ''Math'', Current_Lessons = [(''a00'', ''Math'')]\<rparr>"

definition plugin_with_rule :: "int \<Rightarrow> string \<Rightarrow> string \<Rightarrow> plugin" where
  "plugin_with_rule t click mode =
     initial_plugin
       \<lparr>automation_settings :=
          [(''Math'', \<lparr>setting_time = Some t, setting_click = Some click,
                       setting_mode = Some mode\<rparr>)],
        current_lesson_name := Some ''Math'', previous_lesson_name := Some ''Math'',
        lesson_start_time := Some 1000\<rparr>"

definition ctx_no_anchor :: app_contexts where
  "ctx_no_anchor = ctx_math\<lparr>Current_Part := (None, 0)\<rparr>"

section \<open>Properties\<close>

subsection \<open>The timeline\<close>

lemma time_of_combine: "time_of (combine today t + x) = time_of (t + x)"
proof -
  have "(t + x + (today - 1) * 86400) mod 86400 = (t + x) mod 86400"
    by (rule mod_mult_self1)
  moreover have "combine today t + x = t + x + (today - 1) * 86400"
    by (simp only: combine_def add.commute add.left_commute)
  ultimately show ?thesis by (simp only: time_of_def)
qed

lemma time_of_idem: "time_of (time_of x + y) = time_of (x + y)"
  by (simp add: time_of_def mod_add_left_eq)

lemma add_minutes_Inr: "add_minutes acc d = Inr a \<Longrightarrow> a = acc + 60 * d"
  by (simp add: add_minutes_def split: if_splits)

lemma build_activity_times_representable:
  "representable acc xs \<Longrightarrow>
   \<exists>m'. build_activity_times acc xs m = Inr (m', acc + 60 * sum_list (map snd xs))"
proof (induction xs arbitrary: acc m)
  case Nil
  then show ?case by simp
next
  case (Cons x xs)
  obtain k d where x: "x = (k, d)" by (cases x)
  from Cons.prems have a: "add_minutes acc d = Inr (acc + 60 * d)"
    and r: "representable (acc + 60 * d) xs"
    by (simp_all add: x add_minutes_def)
  from Cons.IH[OF r] show ?case
    by (simp add: x a algebra_simps)
qed

lemma build_activity_times_overflow:
  "\<not> representable acc xs \<Longrightarrow> build_activity_times acc xs m = Inl OverflowError"
proof (induction xs arbitrary: acc m)
  case Nil
  then show ?case by simp
next
  case (Cons x xs)
  obtain k d where x: "x = (k, d)" by (cases x)
  show ?case
  proof (cases "0 \<le> acc + 60 * d \<and> acc + 60 * d \<le> datetime_max")
    case True
    with Cons.prems have "\<not> representable (acc + 60 * d) xs" by (simp add: x)
    from Cons.IH[OF this] True show ?thesis by (simp add: x add_minutes_def)
  next
    case False
    then show ?thesis by (auto simp add: x add_minutes_def)
  qed
qed

lemma build_activity_times_Inr:
  "build_activity_times acc xs m = Inr (m', a) \<Longrightarrow>
   representable acc xs \<and> a = acc + 60 * sum_list (map snd xs)"
  using build_activity_times_representable[of acc xs m]
    build_activity_times_overflow[of acc xs m]
  by (cases "representable acc xs") auto

lemma build_activity_times_other:
  "build_activity_times acc xs m = Inr (m', a) \<Longrightarrow> k \<notin> fst ` set xs \<Longrightarrow> m' k = m k"
proof (induction xs arbitrary: acc m)
  case Nil
  then show ?case by simp
next
  case (Cons x xs)
  obtain k' d where x: "x = (k', d)" by (cases x)
  from Cons.prems(1) obtain n where n: "add_minutes acc d = Inr n"
    by (auto simp: x split: sum.splits)
  from Cons.prems(1) have b: "build_activity_times n xs
      (m(k' \<mapsto> \<lparr>at_start = time_of acc, at_end = time_of n,
                  duration_minutes = d, duration_seconds = d * 60\<rparr>)) = Inr (m', a)"
    by (simp add: x n)
  from Cons.prems(2) have "k \<notin> fst ` set xs" "k \<noteq> k'" by (auto simp: x)
  with Cons.IH[OF b] show ?case by simp
qed

lemma build_activity_times_lookup:
  "build_activity_times acc xs m = Inr (m', a) \<Longrightarrow> distinct (map fst xs) \<Longrightarrow> i < length xs \<Longrightarrow>
   m' (fst (xs ! i)) = Some (window_at acc xs i)"
proof (induction xs arbitrary: acc m i)
  case Nil
  then show ?case by simp
next
  case (Cons x xs)
  obtain k d where x: "x = (k, d)" by (cases x)
  from Cons.prems(1) obtain n where n: "add_minutes acc d = Inr n"
    by (auto simp: x split: sum.splits)
  have nv: "n = acc + 60 * d" by (rule add_minutes_Inr[OF n])
  from Cons.prems(1) have b: "build_activity_times n xs
      (m(k \<mapsto> \<lparr>at_start = time_of acc, at_end = time_of n,
                  duration_minutes = d, duration_seconds = d * 60\<rparr>)) = Inr (m', a)"
    by (simp add: x n)
  show ?case
  proof (cases i)
    case 0
    from Cons.prems(2) have "k \<notin> fst ` set xs" by (auto simp: x)
    from build_activity_times_other[OF b this] show ?thesis
      by (simp add: x 0 window_at_def nv)
  next
    case (Suc j)
    with Cons.prems have "distinct (map fst xs)" "j < length xs" by auto
    from Cons.IH[OF b this] show ?thesis
      by (simp add: x Suc window_at_def nv algebra_simps)
  qed
qed

lemma window_at_combine: "window_at (combine today t) xs i = window_at t xs i"
  by (simp add: window_at_def time_of_combine)

lemma window_at_time_of: "window_at (time_of dt) xs i = window_at dt xs i"
  by (simp add: window_at_def time_of_idem)

lemma representable_bound:
  "0 \<le> acc \<Longrightarrow> \<forall>x \<in> set xs. 0 \<le> snd x \<Longrightarrow> acc + 60 * sum_list (map snd xs) \<le> datetime_max \<Longrightarrow>
   representable acc xs"
proof (induction xs arbitrary: acc)
  case Nil
  then show ?case by simp
next
  case (Cons x xs)
  obtain k d where x: "x = (k, d)" by (cases x)
  have s: "0 \<le> sum_list (map snd xs)"
    by (rule sum_list_nonneg) (use Cons.prems(2) in auto)
  have d: "0 \<le> d" using Cons.prems(2) by (simp add: x)
  have "representable (acc + 60 * d) xs"
    using Cons.prems d by (intro Cons.IH) (auto simp: x algebra_simps)
  then show ?case using Cons.prems s d by (simp add: x)
qed


lemma sort_activities_set:
  "sort_activities xs = Inr ys \<Longrightarrow> set ys = set xs"
  by (auto simp: sort_activities_def split: if_splits)

lemma sort_activities_sorted:
  "sort_activities xs = Inr ys \<Longrightarrow> sorted (map (\<lambda>item. projr (activity_sort_key item)) ys)"
  by (auto simp: sort_activities_def split: if_splits)

lemma sort_activities_distinct:
  assumes "sort_activities xs = Inr ys" "distinct (map fst xs)"
  shows "distinct (map fst ys)"
  using assms by (auto simp: sort_activities_def distinct_map split: if_splits)

lemma node_activities_distinct:
  "distinct (map fst timeline) \<Longrightarrow> distinct (map fst (node_activities_of timeline n))"
  by (simp add: node_activities_of_def distinct_map_filter)

lemma first_lesson_Some:
  "first_lesson xs = Some c \<Longrightarrow> c \<in> fst ` set xs \<and> startswith c CHR ''a''"
proof (induction xs)
  case Nil
  then show ?case by (simp add: first_lesson_def)
next
  case (Cons x xs)
  obtain k d where x: "x = (k, d)" by (cases x)
  show ?case
  proof (cases "startswith k CHR ''a''")
    case True
    with Cons.prems show ?thesis by (simp add: first_lesson_def x)
  next
    case False
    with Cons.prems have "first_lesson xs = Some c" by (simp add: first_lesson_def x)
    from Cons.IH[OF this] show ?thesis by simp
  qed
qed

lemma startswith_a_not_f: "startswith c CHR ''a'' \<Longrightarrow> \<not> startswith c CHR ''f''"
  by (cases c) (auto simp: startswith_def)

lemma scan_current_course_Some:
  "scan_current_course today st now xs = Inr (Some c) \<Longrightarrow>
   c \<in> fst ` set xs \<and> \<not> startswith c CHR ''f''"
proof (induction xs)
  case Nil
  then show ?case by simp
next
  case (Cons x xs)
  obtain k d where x: "x = (k, d)" by (cases x)
  from Cons.prems obtain start_time where st: "st k = Some start_time"
    by (auto simp: x split: option.splits)
  from Cons.prems st obtain e where e: "add_minutes (combine today start_time) d = Inr e"
    by (auto simp: x split: sum.splits)
  show ?case
  proof (cases "start_time \<le> now \<and> now < time_of e")
    case inside: True
    show ?thesis
    proof (cases "startswith k CHR ''f''")
      case True
      with Cons.prems inside st e have "first_lesson xs = Some c" by (simp add: x)
      from first_lesson_Some[OF this] show ?thesis
        by (simp add: startswith_a_not_f)
    next
      case False
      with Cons.prems inside st e have "c = k" by (simp add: x)
      with False show ?thesis by (simp add: x)
    qed
  next
    case False
    with Cons.prems st e have "scan_current_course today st now xs = Inr (Some c)"
      by (simp add: x)
    from Cons.IH[OF this] show ?thesis by simp
  qed
qed

lemma node_activities_of_mem:
  "(k, d) \<in> set (node_activities_of timeline n) \<Longrightarrow> 2 \<le> length k \<and> [k ! 1] = str_int n"
  by (auto simp: node_activities_of_def)

text \<open>
  C2, as the code has it. Before the node's start the time information names the first
  entry of the node in sorted order, whatever its type (line 795 takes
  \<^verbatim>\<open>node_activities[0][0]\<close>; only \<^verbatim>\<open>calculate_current_course\<close> looks for the first
  lesson), with state 0, no total, and exactly the seconds left until the start. The
  loop of lines 775-784 runs before the test of line 794: when one of its running sums
  is no datetime it raises OverflowError, and the result is four None. Non-negative
  minutes that end before the year 10000 stay in range.
\<close>

theorem time_info_before_node_start:
  assumes "Current_Part ctx = (Some dt, node_index)"
    and "node_activities_of (Timeline_Data ctx) node_index \<noteq> []"
    and "sort_activities (node_activities_of (Timeline_Data ctx) node_index) = Inr acts"
    and "Current_Time ctx < time_of dt"
  shows "get_current_activity_time_info today ctx =
           (if representable (combine today (time_of dt)) acts
            then (None, Some (time_of dt - Current_Time ctx), Some (fst (hd acts)), Some 0)
            else no_time_info) \<and>
         hd acts \<in> set (node_activities_of (Timeline_Data ctx) node_index) \<and>
         (\<forall>x \<in> set (node_activities_of (Timeline_Data ctx) node_index).
            projr (activity_sort_key (hd acts)) \<le> projr (activity_sort_key x)) \<and>
         (1 \<le> today \<and> (\<forall>x \<in> set acts. 0 \<le> snd x) \<and>
          combine today (time_of dt) + 60 * sum_list (map snd acts) \<le> datetime_max
            \<longrightarrow> representable (combine today (time_of dt)) acts)"
proof -
  let ?na = "node_activities_of (Timeline_Data ctx) node_index"
  let ?start = "combine today (time_of dt)"
  have acts: "acts = sort_key (\<lambda>item. projr (activity_sort_key item)) ?na"
    using assms(3) by (auto simp: sort_activities_def split: if_splits)
  have "set acts = set ?na" unfolding acts by simp
  then have ne: "acts \<noteq> []" using assms(2) by auto
  have info: "get_current_activity_time_info today ctx =
           (if representable ?start acts
            then (None, Some (time_of dt - Current_Time ctx), Some (fst (hd acts)), Some 0)
            else no_time_info)"
  proof (cases "representable ?start acts")
    case True
    from build_activity_times_representable[OF True, of Map.empty] obtain m' where
      "build_activity_times ?start acts Map.empty
         = Inr (m', ?start + 60 * sum_list (map snd acts))" by blast
    with True assms show ?thesis
      by (simp add: get_current_activity_time_info_def Let_def)
  next
    case False
    from build_activity_times_overflow[OF False, of Map.empty] False assms show ?thesis
      by (simp add: get_current_activity_time_info_def Let_def)
  qed
  have mem: "hd acts \<in> set ?na"
    using ne acts by (metis hd_in_set set_sort)
  have "sorted (map (\<lambda>item. projr (activity_sort_key item)) acts)"
    unfolding acts by (rule sorted_sort_key)
  then have least: "\<forall>x \<in> set acts. projr (activity_sort_key (hd acts)) \<le> projr (activity_sort_key x)"
    using ne by (cases acts) auto
  have bound: "1 \<le> today \<and> (\<forall>x \<in> set acts. 0 \<le> snd x) \<and>
          ?start + 60 * sum_list (map snd acts) \<le> datetime_max
            \<longrightarrow> representable ?start acts"
  proof (intro impI, elim conjE)
    assume t: "1 \<le> today" and d: "\<forall>x \<in> set acts. 0 \<le> snd x"
      and b: "?start + 60 * sum_list (map snd acts) \<le> datetime_max"
    have "0 \<le> time_of dt" by (simp add: time_of_def)
    with t have "0 \<le> ?start" by (simp add: combine_def)
    from representable_bound[OF this d b] show "representable ?start acts" .
  qed
  show ?thesis using info mem least bound \<open>set acts = set ?na\<close> by (intro conjI) auto
qed

text \<open>
  With ten thousand million minutes in the only entry the loop raises, and the result
  before the node's start is four None.
\<close>

lemma time_info_overflow_example:
  "get_current_activity_time_info example_today
     \<lparr>Current_Time = 28000, Current_Part = (Some 28800, 0),
      Timeline_Data = [(''a00'', 10000000000)],
      State = 1, Current_Lesson = None, Current_Lessons = []\<rparr> = no_time_info"
  by code_simp

text \<open>
  C6. The highlighted id is never that of a break. A result is the id of an entry of
  the requested node that does not begin with \<open>f\<close>; in a table whose ids are all lessons
  (\<open>a\<close>) or breaks (\<open>f\<close>), as the data model has them, it is a lesson.
\<close>

theorem calculate_current_course_never_break:
  assumes "calculate_current_course today ctx = Some cid"
  shows "cid \<in> fst ` set (node_activities_of (Timeline_Data ctx) (snd (Current_Part ctx))) \<and>
         2 \<le> length cid \<and> [cid ! 1] = str_int (snd (Current_Part ctx)) \<and>
         \<not> startswith cid CHR ''f'' \<and>
         ((\<forall>k \<in> fst ` set (node_activities_of (Timeline_Data ctx) (snd (Current_Part ctx))).
             startswith k CHR ''a'' \<or> startswith k CHR ''f'') \<longrightarrow>
          startswith cid CHR ''a'')"
proof -
  obtain node_start_datetime node_index where cp: "Current_Part ctx = (node_start_datetime, node_index)"
    by (cases "Current_Part ctx")
  let ?na = "node_activities_of (Timeline_Data ctx) node_index"
  from assms cp obtain dt where dt: "node_start_datetime = Some dt"
    by (cases node_start_datetime) (auto simp: calculate_current_course_def)
  from assms cp dt obtain acts where acts: "sort_activities ?na = Inr acts"
    by (auto simp: calculate_current_course_def Let_def split: if_splits sum.splits)
  have set_acts: "set acts = set ?na" by (rule sort_activities_set[OF acts])
  have "cid \<in> fst ` set acts \<and> \<not> startswith cid CHR ''f''"
    using assms cp dt acts
    by (auto simp: calculate_current_course_def Let_def startswith_a_not_f
        split: if_splits sum.splits option.splits prod.splits
        dest!: first_lesson_Some scan_current_course_Some)
  then have main: "cid \<in> fst ` set ?na" "\<not> startswith cid CHR ''f''"
    using set_acts by auto
  then obtain d where "(cid, d) \<in> set ?na" by auto
  from node_activities_of_mem[OF this] main show ?thesis
    by (auto simp: cp)
qed


text \<open>
  The key of an id of the usual shape (type, node, one decimal digit) is the digit's
  value and then the type, and a lesson comes before a break of the same number.
\<close>

lemma activity_sort_key_digit:
  "d < 10 \<Longrightarrow>
   activity_sort_key (t # n # char_of (48 + d) # rest, minutes) = Inr (int d, t)"
  by (simp add: activity_sort_key_def isdigit_def int_of_str1_def Let_def)

lemma lesson_before_break: "(n :: int, CHR ''a'') < (n, CHR ''f'')"
  by (simp add: less_prod_def less_char_def)

lemma take_sum_mono:
  fixes xs :: "('a \<times> int) list"
  assumes "\<forall>x \<in> set xs. 0 \<le> snd x" "i \<le> j"
  shows "sum_list (map snd (take i xs)) \<le> sum_list (map snd (take j xs))"
proof -
  obtain k where j: "j = i + k" using assms(2) by (auto simp: le_iff_add)
  have "set (take k (drop i xs)) \<subseteq> set xs"
    by (meson in_set_dropD in_set_takeD subsetI)
  then have nn: "\<forall>x \<in> set (take k (drop i xs)). 0 \<le> snd x"
    using assms(1) by blast
  have "0 \<le> sum_list (map snd (take k (drop i xs)))"
    by (rule sum_list_nonneg) (use nn in auto)
  then show ?thesis by (simp add: j take_add)
qed

lemma take_sum_le:
  fixes xs :: "('a \<times> int) list"
  assumes "\<forall>x \<in> set xs. 0 \<le> snd x"
  shows "sum_list (map snd (take i xs)) \<le> sum_list (map snd xs)"
  using take_sum_mono[OF assms, of i "max i (length xs)"] by simp

lemma take_sum_nonneg:
  fixes xs :: "('a \<times> int) list"
  assumes "\<forall>x \<in> set xs. 0 \<le> snd x"
  shows "0 \<le> sum_list (map snd (take i xs))"
  using take_sum_mono[OF assms, of 0 i] by simp

lemma window_at_same_day:
  assumes "\<forall>x \<in> set xs. 0 \<le> snd x" "time_of dt + 60 * sum_list (map snd xs) < 86400"
  shows "at_start (window_at dt xs i) = time_of dt + 60 * sum_list (map snd (take i xs))"
    and "at_end (window_at dt xs i) = time_of dt + 60 * sum_list (map snd (take (Suc i) xs))"
proof -
  have t: "0 \<le> time_of dt" by (simp add: time_of_def)
  have r: "time_of (dt + 60 * sum_list (map snd (take n xs)))
             = time_of dt + 60 * sum_list (map snd (take n xs))" for n
  proof -
    have "0 \<le> time_of dt + 60 * sum_list (map snd (take n xs))"
      using t take_sum_nonneg[OF assms(1), of n] by simp
    moreover have "time_of dt + 60 * sum_list (map snd (take n xs)) < 86400"
      using take_sum_le[OF assms(1), of n] assms(2) by simp
    ultimately have "time_of (time_of dt + 60 * sum_list (map snd (take n xs)))
             = time_of dt + 60 * sum_list (map snd (take n xs))"
      by (simp add: time_of_def)
    then show ?thesis by (simp only: time_of_idem)
  qed
  show "at_start (window_at dt xs i) = time_of dt + 60 * sum_list (map snd (take i xs))"
    by (simp add: window_at_def r)
  show "at_end (window_at dt xs i) = time_of dt + 60 * sum_list (map snd (take (Suc i) xs))"
    by (simp add: window_at_def r del: take_Suc_Cons)
qed

lemma activity_window_lookup:
  assumes "representable (combine today (time_of dt)) acts" "distinct (map fst acts)"
    "i < length acts"
  shows "activity_window today dt acts (fst (acts ! i)) = Some (window_at dt acts i)"
proof -
  from build_activity_times_representable[OF assms(1), of Map.empty] obtain m' where
    b: "build_activity_times (combine today (time_of dt)) acts Map.empty
         = Inr (m', combine today (time_of dt) + 60 * sum_list (map snd acts))" by blast
  from build_activity_times_lookup[OF b assms(2,3)] show ?thesis
    by (simp add: activity_window_def b window_at_combine window_at_time_of)
qed

text \<open>
  C7, as the code has it. The entries of a node are taken in the order of their keys
  (sequence number, then type, \<open>a\<close> before \<open>f\<close>): the sorted list is a rearrangement of
  the node's entries with its keys ascending. When the loop of lines 775-784 runs to its
  end, the window stored for the entry at position \<open>i\<close> is \<^const>\<open>window_at\<close>: it starts
  at the time of day of the node's start plus the minutes of the entries before it, and
  ends its own minutes later. So the first window starts at the node's start, and each
  window ends where the next starts. The windows are times of day: any two of them are
  disjoint when the minutes are non-negative and the node ends before midnight of the
  day it starts. The loop runs to its end when the running sums are datetimes, as they
  are for non-negative minutes that end before the year 10000 (\<open>representable_bound\<close>).
\<close>

theorem activity_windows_contiguous:
  assumes "distinct (map fst timeline_data)"
    and "sort_activities (node_activities_of timeline_data node_index) = Inr acts"
    and "representable (combine today (time_of dt)) acts"
  shows "sorted (map (\<lambda>item. projr (activity_sort_key item)) acts) \<and>
         set acts = set (node_activities_of timeline_data node_index) \<and>
         distinct (map fst acts) \<and>
         (\<forall>i < length acts.
            activity_window today dt acts (fst (acts ! i)) = Some (window_at dt acts i)) \<and>
         (acts \<noteq> [] \<longrightarrow>
            map_option at_start (activity_window today dt acts (fst (acts ! 0)))
              = Some (time_of dt)) \<and>
         (\<forall>i. Suc i < length acts \<longrightarrow>
            (\<exists>w w'. activity_window today dt acts (fst (acts ! i)) = Some w \<and>
                     activity_window today dt acts (fst (acts ! Suc i)) = Some w' \<and>
                     at_end w = at_start w')) \<and>
         ((\<forall>x \<in> set acts. 0 \<le> snd x) \<and>
          time_of dt + 60 * sum_list (map snd acts) < 86400 \<longrightarrow>
            (\<forall>i j. i < j \<and> j < length acts \<longrightarrow>
               (\<exists>w w'. activity_window today dt acts (fst (acts ! i)) = Some w \<and>
                        activity_window today dt acts (fst (acts ! j)) = Some w' \<and>
                        at_end w \<le> at_start w' \<and>
                        \<not> (\<exists>t. at_start w \<le> t \<and> t < at_end w \<and>
                                 at_start w' \<le> t \<and> t < at_end w'))))"
proof -
  have d: "distinct (map fst acts)"
    using sort_activities_distinct[OF assms(2)] node_activities_distinct[OF assms(1)] by blast
  note look = activity_window_lookup[OF assms(3) d]
  have c1: "sorted (map (\<lambda>item. projr (activity_sort_key item)) acts)"
    by (rule sort_activities_sorted[OF assms(2)])
  have c2: "set acts = set (node_activities_of timeline_data node_index)"
    by (rule sort_activities_set[OF assms(2)])
  have c4: "\<forall>i < length acts.
            activity_window today dt acts (fst (acts ! i)) = Some (window_at dt acts i)"
    using look by blast
  have c5: "acts \<noteq> [] \<longrightarrow>
            map_option at_start (activity_window today dt acts (fst (acts ! 0)))
              = Some (time_of dt)"
  proof
    assume "acts \<noteq> []"
    then have "0 < length acts" by simp
    from look[OF this] show "map_option at_start (activity_window today dt acts (fst (acts ! 0)))
              = Some (time_of dt)"
      by (simp add: window_at_def)
  qed
  have c6: "\<forall>i. Suc i < length acts \<longrightarrow>
            (\<exists>w w'. activity_window today dt acts (fst (acts ! i)) = Some w \<and>
                     activity_window today dt acts (fst (acts ! Suc i)) = Some w' \<and>
                     at_end w = at_start w')"
  proof (intro allI impI)
    fix i assume i: "Suc i < length acts"
    then have i': "i < length acts" by simp
    have "at_end (window_at dt acts i) = at_start (window_at dt acts (Suc i))"
      by (simp add: window_at_def)
    with look[OF i] look[OF i'] show "\<exists>w w'. activity_window today dt acts (fst (acts ! i)) = Some w \<and>
                     activity_window today dt acts (fst (acts ! Suc i)) = Some w' \<and>
                     at_end w = at_start w'"
      by blast
  qed
  have c7: "(\<forall>x \<in> set acts. 0 \<le> snd x) \<and>
          time_of dt + 60 * sum_list (map snd acts) < 86400 \<longrightarrow>
            (\<forall>i j. i < j \<and> j < length acts \<longrightarrow>
               (\<exists>w w'. activity_window today dt acts (fst (acts ! i)) = Some w \<and>
                        activity_window today dt acts (fst (acts ! j)) = Some w' \<and>
                        at_end w \<le> at_start w' \<and>
                        \<not> (\<exists>t. at_start w \<le> t \<and> t < at_end w \<and>
                                 at_start w' \<le> t \<and> t < at_end w')))"
  proof (intro impI allI, elim conjE)
    fix i j
    assume nn: "\<forall>x \<in> set acts. 0 \<le> snd x"
      and day: "time_of dt + 60 * sum_list (map snd acts) < 86400"
      and ij: "i < j" and j: "j < length acts"
    from ij j have i: "i < length acts" by simp
    have "sum_list (map snd (take (Suc i) acts)) \<le> sum_list (map snd (take j acts))"
      using take_sum_mono[OF nn, of "Suc i" j] ij by simp
    then have le: "at_end (window_at dt acts i) \<le> at_start (window_at dt acts j)"
      by (simp only: window_at_same_day[OF nn day])
    then have "\<not> (\<exists>t. at_start (window_at dt acts i) \<le> t \<and> t < at_end (window_at dt acts i) \<and>
                 at_start (window_at dt acts j) \<le> t \<and> t < at_end (window_at dt acts j))"
      by auto
    with le look[OF i] look[OF j]
    show "\<exists>w w'. activity_window today dt acts (fst (acts ! i)) = Some w \<and>
                        activity_window today dt acts (fst (acts ! j)) = Some w' \<and>
                        at_end w \<le> at_start w' \<and>
                        \<not> (\<exists>t. at_start w \<le> t \<and> t < at_end w \<and>
                                 at_start w' \<le> t \<and> t < at_end w')"
      by blast
  qed
  show ?thesis by (intro conjI c1 c2 d c4 c5 c6 c7)
qed



theorem time_info_before_node_start_witness:
  "Current_Part ctx_break_first = (Some 28800, 0) \<and>
   node_activities_of (Timeline_Data ctx_break_first) 0 \<noteq> [] \<and>
   sort_activities (node_activities_of (Timeline_Data ctx_break_first) 0)
     = Inr [(''f00'', 10), (''a01'', 45), (''f01'', 10)] \<and>
   Current_Time ctx_break_first < time_of 28800 \<and>
   representable (combine example_today (time_of 28800))
     [(''f00'', 10), (''a01'', 45), (''f01'', 10)] \<and>
   get_current_activity_time_info example_today ctx_break_first
     = (None, Some 60, Some ''f00'', Some 0)"
proof -
  have h1: "Current_Part ctx_break_first = (Some 28800, 0)"
    by (simp add: ctx_break_first_def)
  have h2: "node_activities_of (Timeline_Data ctx_break_first) 0 \<noteq> []"
    by code_simp
  have h3: "sort_activities (node_activities_of (Timeline_Data ctx_break_first) 0)
     = Inr [(''f00'', 10), (''a01'', 45), (''f01'', 10)]"
    by code_simp
  have h4: "Current_Time ctx_break_first < time_of 28800"
    by code_simp
  have h5: "time_of 28800 - Current_Time ctx_break_first = 60"
    by code_simp
  have r: "representable (combine example_today (time_of 28800))
     [(''f00'', 10), (''a01'', 45), (''f01'', 10)]"
    by code_simp
  from time_info_before_node_start[OF h1 h2 h3 h4, of example_today] h1 h2 h3 h4 h5 r
  show ?thesis
    by simp
qed

text \<open>
  The claim as the spec words it (the first lesson-type entry) fails on the same input:
  the entry returned is the break \<open>f00\<close>, the first lesson of the node is \<open>a01\<close>.
\<close>

theorem time_info_first_lesson_counterexample:
  "Current_Time ctx_break_first < time_of 28800 \<and>
   get_current_activity_time_info example_today ctx_break_first
     = (None, Some 60, Some ''f00'', Some 0) \<and>
   first_lesson [(''f00'', 10), (''a01'', 45), (''f01'', 10)] = Some ''a01'' \<and>
   sort_activities (node_activities_of (Timeline_Data ctx_break_first) 0)
     = Inr [(''f00'', 10), (''a01'', 45), (''f01'', 10)]"
  by code_simp

theorem calculate_current_course_never_break_witness:
  "calculate_current_course example_today (ctx_break_first\<lparr>Current_Time := 29000\<rparr>)
     = Some ''a01'' \<and>
   \<not> startswith ''a01'' CHR ''f'' \<and> startswith ''a01'' CHR ''a'' \<and>
   fst ` set (node_activities_of (Timeline_Data ctx_break_first) 0) = {''f00'', ''a01'', ''f01''}"
proof -
  have h: "calculate_current_course example_today (ctx_break_first\<lparr>Current_Time := 29000\<rparr>)
             = Some ''a01''"
    by code_simp
  have n: "node_activities_of (Timeline_Data ctx_break_first) 0
             = [(''f00'', 10), (''a01'', 45), (''f01'', 10)]"
    by code_simp
  have "snd (Current_Part (ctx_break_first\<lparr>Current_Time := 29000\<rparr>)) = 0"
    by (simp add: ctx_break_first_def)
  with calculate_current_course_never_break[OF h] h n show ?thesis
    by (auto simp: startswith_def)
qed

theorem activity_windows_contiguous_witness:
  "distinct (map fst timeline_shuffled) \<and>
   node_activities_of timeline_shuffled 0
     = [(''f01'', 10), (''a01'', 45), (''f00'', 10), (''a00'', 40)] \<and>
   sort_activities (node_activities_of timeline_shuffled 0)
     = Inr [(''a00'', 40), (''f00'', 10), (''a01'', 45), (''f01'', 10)] \<and>
   representable (combine example_today (time_of 28800))
     [(''a00'', 40), (''f00'', 10), (''a01'', 45), (''f01'', 10)] \<and>
   activity_window example_today 28800
     [(''a00'', 40), (''f00'', 10), (''a01'', 45), (''f01'', 10)] ''f00''
       = Some \<lparr>at_start = 31200, at_end = 31800, duration_minutes = 10, duration_seconds = 600\<rparr> \<and>
   activity_window example_today 28800
     [(''a00'', 40), (''f00'', 10), (''a01'', 45), (''f01'', 10)] ''a01''
       = Some \<lparr>at_start = 31800, at_end = 34500, duration_minutes = 45, duration_seconds = 2700\<rparr>"
proof -
  let ?acts = "[(''a00'', 40), (''f00'', 10), (''a01'', 45), (''f01'', 10::int)]"
  have h1: "distinct (map fst timeline_shuffled)"
    by code_simp
  have n: "node_activities_of timeline_shuffled 0
     = [(''f01'', 10), (''a01'', 45), (''f00'', 10), (''a00'', 40)]"
    by code_simp
  have h2: "sort_activities (node_activities_of timeline_shuffled 0) = Inr ?acts"
    by code_simp
  have h3: "representable (combine example_today (time_of 28800)) ?acts"
    by code_simp
  from activity_windows_contiguous[OF h1 h2 h3]
  have w: "\<forall>i < length ?acts.
      activity_window example_today 28800 ?acts (fst (?acts ! i)) = Some (window_at 28800 ?acts i)"
    by (elim conjE)
  have w1: "window_at 28800 ?acts 1
     = \<lparr>at_start = 31200, at_end = 31800, duration_minutes = 10, duration_seconds = 600\<rparr>"
    by (simp add: window_at_def time_of_def)
  have w2: "window_at 28800 ?acts 2
     = \<lparr>at_start = 31800, at_end = 34500, duration_minutes = 45, duration_seconds = 2700\<rparr>"
    by (simp add: window_at_def time_of_def numeral_2_eq_2)
  from w[rule_format, of 1] w1
  have a: "activity_window example_today 28800 ?acts ''f00''
       = Some \<lparr>at_start = 31200, at_end = 31800, duration_minutes = 10, duration_seconds = 600\<rparr>"
    by simp
  from w[rule_format, of 2] w2
  have b: "activity_window example_today 28800 ?acts ''a01''
       = Some \<lparr>at_start = 31800, at_end = 34500, duration_minutes = 45, duration_seconds = 2700\<rparr>"
    by simp
  show ?thesis by (intro conjI h1 n h2 h3 a b)
qed

text \<open>
  The claim as the spec words it (non-overlapping, for every node) fails for a node that
  runs past midnight: in a node of 25 hours that starts at 08:00 the first and the last
  entry get the same window, from 08:00 to 09:00.
\<close>

theorem activity_windows_overlap_counterexample:
  "sort_activities (node_activities_of timeline_past_midnight 0) = Inr timeline_past_midnight \<and>
   activity_window example_today 28800 timeline_past_midnight ''a00''
     = Some \<lparr>at_start = 28800, at_end = 32400, duration_minutes = 60, duration_seconds = 3600\<rparr> \<and>
   activity_window example_today 28800 timeline_past_midnight ''a01''
     = Some \<lparr>at_start = 28800, at_end = 32400, duration_minutes = 60, duration_seconds = 3600\<rparr>"
  by code_simp

lemma find_current_activity_built:
  assumes "build_activity_times s (pre @ xs) m = Inr (m', a)" "distinct (map fst (pre @ xs))"
  shows "find_current_activity m' now xs
           = Inr (find_from (s + 60 * sum_list (map snd pre)) now xs)"
  using assms
proof (induction xs arbitrary: pre)
  case Nil
  then show ?case by simp
next
  case (Cons x xs)
  obtain k d where x: "x = (k, d)" by (cases x)
  have i: "length pre < length (pre @ x # xs)" by simp
  have look: "m' k = Some (window_at s (pre @ x # xs) (length pre))"
    using build_activity_times_lookup[OF Cons.prems(1,2) i] by (simp add: x)
  have w: "at_start (window_at s (pre @ x # xs) (length pre))
             = time_of (s + 60 * sum_list (map snd pre))"
      "at_end (window_at s (pre @ x # xs) (length pre))
             = time_of (s + 60 * sum_list (map snd pre) + 60 * d)"
    by (simp_all add: window_at_def x algebra_simps)
  have b': "build_activity_times s ((pre @ [x]) @ xs) m = Inr (m', a)"
    using Cons.prems(1) by simp
  have d': "distinct (map fst ((pre @ [x]) @ xs))" using Cons.prems(2) by simp
  have rec: "find_current_activity m' now xs
           = Inr (find_from (s + 60 * sum_list (map snd pre) + 60 * d) now xs)"
    using Cons.IH[OF b' d'] by (simp add: x algebra_simps)
  show ?case
    using look[unfolded x] w[unfolded x] rec[unfolded x]
    by (simp add: x)
qed

lemma find_from_covers:
  "time_of acc \<le> now \<Longrightarrow> now < time_of (acc + 60 * sum_list (map snd xs)) \<Longrightarrow>
   \<exists>k st. find_from acc now xs = Some (k, st) \<and> k \<in> fst ` set xs"
proof (induction xs arbitrary: acc)
  case Nil
  then show ?case by simp
next
  case (Cons x xs)
  obtain k d where x: "x = (k, d)" by (cases x)
  show ?case
  proof (cases "now < time_of (acc + 60 * d)")
    case True
    with Cons.prems(1) show ?thesis by (simp add: x)
  next
    case False
    then have a: "time_of (acc + 60 * d) \<le> now" by simp
    have b: "now < time_of (acc + 60 * d + 60 * sum_list (map snd xs))"
      using Cons.prems(2) by (simp add: x algebra_simps)
    from Cons.IH[OF a b] False show ?thesis by (auto simp: x)
  qed
qed

lemma find_current_activity_Some:
  "find_current_activity m now xs = Inr (Some (k, st)) \<Longrightarrow>
   \<exists>t. m k = Some t \<and> at_start t \<le> now \<and> now < at_end t \<and> k \<in> fst ` set xs"
proof (induction xs)
  case Nil
  then show ?case by simp
next
  case (Cons x xs)
  obtain k' d where x: "x = (k', d)" by (cases x)
  from Cons.prems obtain t where t: "m k' = Some t"
    by (cases "m k'") (simp_all add: x)
  show ?case
  proof (cases "at_start t \<le> now \<and> now < at_end t")
    case True
    with Cons.prems t have "k = k'" by (simp add: x)
    with True t show ?thesis by (simp add: x)
  next
    case False
    with Cons.prems t have "find_current_activity m now xs = Inr (Some (k, st))"
      by (simp add: x)
    from Cons.IH[OF this] show ?thesis by auto
  qed
qed

text \<open>
  Inside the node a window is always found. When the time of day is at or after the
  node's start and before the node's end, some entry's window holds it, and the time
  information is that entry's: its seconds, the seconds left to its end, its id and its
  state. The return of lines 827-829 is never reached from there, and the time
  information has no fallback of its own; the search for the last lesson (lines 715-720)
  is in \<open>calculate_current_course\<close> only, where a break with no lesson after it leads to it.
\<close>

theorem time_info_window_always_found:
  assumes "Current_Part ctx = (Some dt, node_index)"
    and "distinct (map fst (Timeline_Data ctx))"
    and "sort_activities (node_activities_of (Timeline_Data ctx) node_index) = Inr acts"
    and "representable (combine today (time_of dt)) acts"
    and "time_of dt \<le> Current_Time ctx"
    and "Current_Time ctx < time_of (dt + 60 * sum_list (map snd acts))"
  shows "\<exists>k w st.
     get_current_activity_time_info today ctx
       = (Some (duration_seconds w), Some (at_end w - Current_Time ctx), Some k, Some st) \<and>
     activity_window today dt acts k = Some w \<and>
     k \<in> fst ` set acts \<and> at_start w \<le> Current_Time ctx \<and> Current_Time ctx < at_end w"
proof -
  let ?now = "Current_Time ctx"
  let ?na = "node_activities_of (Timeline_Data ctx) node_index"
  let ?start = "combine today (time_of dt)"
  from build_activity_times_representable[OF assms(4), of Map.empty] obtain m where
    bt: "build_activity_times ?start acts Map.empty
           = Inr (m, ?start + 60 * sum_list (map snd acts))" by blast
  have d: "distinct (map fst acts)"
    using sort_activities_distinct[OF assms(3)] node_activities_distinct[OF assms(2)] by blast
  have a: "time_of ?start \<le> ?now"
    using assms(5) time_of_combine[of today "time_of dt" 0] by (simp add: time_of_idem[of dt 0, simplified])
  have e: "time_of (?start + 60 * sum_list (map snd acts))
             = time_of (dt + 60 * sum_list (map snd acts))"
    by (simp only: time_of_combine time_of_idem)
  have b: "?now < time_of (?start + 60 * sum_list (map snd acts))"
    using assms(6) by (simp only: e)
  from find_from_covers[OF a b] obtain k st where
    ff: "find_from ?start ?now acts = Some (k, st)" by blast
  have "find_current_activity m ?now acts = Inr (find_from ?start ?now acts)"
    using find_current_activity_built[of ?start "[]" acts Map.empty m _ ?now] bt d
    by simp
  then have fc: "find_current_activity m ?now acts = Inr (Some (k, st))" by (simp add: ff)
  from find_current_activity_Some[OF fc] obtain w where
    w: "m k = Some w" "at_start w \<le> ?now" "?now < at_end w" "k \<in> fst ` set acts" by blast
  have ne: "?na \<noteq> []" using w(4) sort_activities_set[OF assms(3)] by auto
  have late: "\<not> ?now < time_of dt"
    "\<not> time_of (?start + 60 * sum_list (map snd acts)) \<le> ?now"
    using assms(5) b by simp_all
  have "get_current_activity_time_info today ctx
       = (Some (duration_seconds w), Some (at_end w - ?now), Some k, Some st)"
    using w(3) by (simp add: get_current_activity_time_info_def Let_def assms(1,3) ne bt late fc w(1))
  moreover have "activity_window today dt acts k = Some w"
    by (simp add: activity_window_def bt w(1))
  ultimately show ?thesis using w by blast
qed

theorem time_info_window_always_found_witness:
  "Current_Part ctx_math = (Some 28800, 0) \<and>
   distinct (map fst (Timeline_Data ctx_math)) \<and>
   sort_activities (node_activities_of (Timeline_Data ctx_math) 0)
     = Inr [(''a00'', 45), (''f00'', 10)] \<and>
   representable (combine example_today (time_of 28800)) [(''a00'', 45), (''f00'', 10)] \<and>
   time_of 28800 \<le> Current_Time ctx_math \<and>
   Current_Time ctx_math < time_of (28800 + 60 * sum_list (map snd [(''a00'', 45), (''f00'', 10::int)])) \<and>
   get_current_activity_time_info example_today ctx_math
     = (Some 2700, Some 1500, Some ''a00'', Some 1)"
proof -
  have h1: "Current_Part ctx_math = (Some 28800, 0)" by (simp add: ctx_math_def)
  have h2: "distinct (map fst (Timeline_Data ctx_math))" by code_simp
  have h3: "sort_activities (node_activities_of (Timeline_Data ctx_math) 0)
     = Inr [(''a00'', 45), (''f00'', 10)]" by code_simp
  have h4: "representable (combine example_today (time_of 28800)) [(''a00'', 45), (''f00'', 10)]"
    by code_simp
  have h5: "time_of 28800 \<le> Current_Time ctx_math" by code_simp
  have h6: "Current_Time ctx_math
     < time_of (28800 + 60 * sum_list (map snd [(''a00'', 45), (''f00'', 10::int)]))"
    by code_simp
  have v: "get_current_activity_time_info example_today ctx_math
     = (Some 2700, Some 1500, Some ''a00'', Some 1)"
    by code_simp
  from time_info_window_always_found[OF h1 h2 h3 h4 h5 h6] v h1 h2 h3 h4 h5 h6 show ?thesis
    by simp
qed

lemma last_break_highlights_last_lesson:
  "get_current_activity_time_info example_today (ctx_math\<lparr>Current_Time := 31800\<rparr>)
     = (Some 600, Some 300, Some ''f00'', Some 0) \<and>
   calculate_current_course example_today (ctx_math\<lparr>Current_Time := 31800\<rparr>) = Some ''a00''"
  by code_simp

subsection \<open>Double precision\<close>

text \<open>
  \<^const>\<open>ilog2\<close> is the integer part of the binary logarithm, so \<^const>\<open>fl\<close> keeps 53
  significant bits of a number in the normal range, and its relative error is at most
  \<open>2\<^sup>-\<^sup>5\<^sup>3\<close>.
\<close>

lemma pow2_nat: "0 \<le> k \<Longrightarrow> (2::rat) ^ nat k = 2 powi k"
  by (simp add: power_int_def)

lemma ilog2_bounds:
  assumes "0 < x"
  shows "2 powi (ilog2 x) \<le> x \<and> x < 2 powi (ilog2 x + 1)"
proof -
  obtain n d where q: "quotient_of x = (n, d)" by (cases "quotient_of x")
  have d: "0 < d" using q by (rule quotient_of_denom_pos)
  have x: "x = of_int n / of_int d" using q by (rule quotient_of_div)
  have n: "0 < n" using assms d x by (simp add: zero_less_divide_iff)
  define bn where "bn = bitlen n"
  define bd where "bd = bitlen d"
  have bn1: "1 \<le> bn" using n by (simp add: bn_def bitlen_alt_def)
  have bd1: "1 \<le> bd" using d by (simp add: bd_def bitlen_alt_def)
  have nb: "2 ^ nat (bn - 1) \<le> n" "n < 2 ^ nat bn"
    using bitlen_bounds[OF n] by (simp_all add: bn_def)
  have db: "2 ^ nat (bd - 1) \<le> d" "d < 2 ^ nat bd"
    using bitlen_bounds[OF d] by (simp_all add: bd_def)
  have nbr: "(2::rat) powi (bn - 1) \<le> of_int n" "(of_int n :: rat) < 2 powi bn"
  proof -
    have "(of_int (2 ^ nat (bn - 1)) :: rat) \<le> of_int n" using nb(1) by (simp only: of_int_le_iff)
    then show "(2::rat) powi (bn - 1) \<le> of_int n" using bn1 by (simp add: power_int_def)
    have "(of_int n :: rat) < of_int (2 ^ nat bn)" using nb(2) by (simp only: of_int_less_iff)
    then show "(of_int n :: rat) < 2 powi bn" using bn1 by (simp add: power_int_def)
  qed
  have dbr: "(2::rat) powi (bd - 1) \<le> of_int d" "(of_int d :: rat) < 2 powi bd"
  proof -
    have "(of_int (2 ^ nat (bd - 1)) :: rat) \<le> of_int d" using db(1) by (simp only: of_int_le_iff)
    then show "(2::rat) powi (bd - 1) \<le> of_int d" using bd1 by (simp add: power_int_def)
    have "(of_int d :: rat) < of_int (2 ^ nat bd)" using db(2) by (simp only: of_int_less_iff)
    then show "(of_int d :: rat) < 2 powi bd" using bd1 by (simp add: power_int_def)
  qed
  have dpos: "(0::rat) < of_int d" using d by simp
  have lower: "2 powi (bn - bd - 1) < x"
  proof -
    have "(2::rat) powi (bn - bd - 1) * of_int d < 2 powi (bn - bd - 1) * 2 powi bd"
      using dbr(2) by (simp add: mult_strict_left_mono)
    also have "\<dots> = 2 powi (bn - 1)"
      by (simp flip: power_int_add)
    also have "\<dots> \<le> of_int n" by (rule nbr(1))
    finally show ?thesis using dpos by (simp add: x pos_less_divide_eq)
  qed
  have upper: "x < 2 powi (bn - bd + 1)"
  proof -
    have "of_int n < (2::rat) powi bn" by (rule nbr(2))
    also have "\<dots> = 2 powi (bn - bd + 1) * 2 powi (bd - 1)"
      by (simp flip: power_int_add)
    also have "\<dots> \<le> 2 powi (bn - bd + 1) * of_int d"
      using dbr(1) by (simp add: mult_left_mono)
    finally show ?thesis using dpos by (simp add: x pos_divide_less_eq)
  qed
  have il: "ilog2 x = (if 2 powi (bn - bd) \<le> x then bn - bd else bn - bd - 1)"
    by (simp add: ilog2_def q bn_def bd_def Let_def)
  show ?thesis
  proof (cases "2 powi (bn - bd) \<le> x")
    case True
    then show ?thesis using upper by (simp add: il)
  next
    case False
    then show ?thesis using lower by (simp add: il)
  qed
qed

lemma round_half_even_error: "\<bar>of_int (round_half_even y) - y\<bar> \<le> 1 / 2"
proof -
  have "of_int \<lfloor>y\<rfloor> \<le> y" "y < of_int \<lfloor>y\<rfloor> + 1" by linarith+
  then show ?thesis
    by (auto simp: round_half_even_def Let_def abs_le_iff)
qed


lemma ilog2_ge:
  assumes "0 < x" "2 powi m \<le> x"
  shows "m \<le> ilog2 x"
proof -
  have "(2::rat) powi m < 2 powi (ilog2 x + 1)"
    using ilog2_bounds[OF assms(1)] assms(2) by linarith
  moreover have "ilog2 x + 1 \<le> m \<Longrightarrow> (2::rat) powi (ilog2 x + 1) \<le> 2 powi m"
    by (rule power_int_increasing) simp_all
  ultimately have "m < ilog2 x + 1" by fastforce
  then show ?thesis by simp
qed

lemma fl_error_normal:
  assumes "2 powi (- 1022) \<le> x"
  shows "\<bar>fl x - x\<bar> \<le> x * 2 powi (- 53)"
proof -
  have pos: "0 < x"
    using assms zero_less_power_int[of "2::rat" "- 1022"] by linarith
  have lg: "- 1022 \<le> ilog2 x" using ilog2_ge[OF pos assms] .
  define e where "e = ilog2 x - 52"
  have e: "max (ilog2 \<bar>x\<bar> - 52) (- 1074) = e" using lg pos by (simp add: e_def)
  have pe: "(0::rat) < 2 powi e" by simp
  define y where "y = x / 2 powi e"
  have flx: "fl x = of_int (round_half_even y) * 2 powi e"
    using pos e by (simp add: fl_def y_def Let_def)
  have xy: "x = y * 2 powi e" using pe by (simp add: y_def)
  have "fl x - x = of_int (round_half_even y) * 2 powi e - y * 2 powi e"
    unfolding flx using xy by simp
  then have "fl x - x = (of_int (round_half_even y) - y) * 2 powi e"
    by (simp add: algebra_simps)
  then have "\<bar>fl x - x\<bar> = \<bar>of_int (round_half_even y) - y\<bar> * 2 powi e"
    using pe by (simp add: abs_mult)
  also have "\<dots> \<le> 1 / 2 * 2 powi e"
    using round_half_even_error[of y] pe by (simp add: mult_right_mono)
  also have "\<dots> = 2 powi (ilog2 x) * 2 powi (- 53)"
  proof -
    have "(2::rat) powi (ilog2 x + (- 52)) = 2 powi (ilog2 x) * 2 powi (- 52)"
      by (rule power_int_add) simp
    then have "(2::rat) powi e = 2 powi (ilog2 x) * 2 powi (- 52)"
      by (simp add: e_def)
    moreover have "(2::rat) powi (- 52) = 2 * 2 powi (- 53)"
      by (simp add: power_int_def power_divide)
    ultimately show ?thesis by simp
  qed
  also have "\<dots> \<le> x * 2 powi (- 53)"
    using ilog2_bounds[OF pos] by (simp add: mult_right_mono)
  finally show ?thesis .
qed


lemma fl_zero: "fl 0 = 0"
  by (simp add: fl_def)

lemma ulp53_facts: "0 < ulp53" "300 * ulp53 < v44" "v44 \<le> 1" "ulp53 \<le> 1 / 100"
  by (simp_all add: ulp53_def v44_def)

lemma fl_error_small:
  assumes "v44 \<le> x"
  shows "\<bar>fl x - x\<bar> \<le> x * ulp53"
proof -
  have "(2::rat) powi (- 1022) \<le> 2 powi (- 44)"
    by (rule power_int_increasing) simp_all
  moreover have "(2::rat) powi (- 44) = v44"
    by (simp add: power_int_def power_divide v44_def)
  ultimately have "2 powi (- 1022) \<le> x" using assms by linarith
  then have "\<bar>fl x - x\<bar> \<le> x * 2 powi (- 53)" by (rule fl_error_normal)
  moreover have "(2::rat) powi (- 53) = ulp53"
    by (simp add: power_int_def power_divide ulp53_def)
  ultimately show ?thesis by (simp only:)
qed

lemma floor_between:
  fixes z :: rat
  assumes "of_int k - 1 < z" "z < of_int k + 1"
  shows "\<lfloor>z\<rfloor> = k \<or> \<lfloor>z\<rfloor> = k - 1"
proof -
  have "of_int (k - 1) \<le> z" using assms(1) by simp
  then have "k - 1 \<le> \<lfloor>z\<rfloor>" by (simp only: le_floor_iff)
  moreover have "z < of_int (k + 1)" using assms(2) by simp
  then have "\<lfloor>z\<rfloor> < k + 1" by (simp only: floor_less_iff)
  ultimately show ?thesis by linarith
qed

lemma double_ratio_error:
  fixes x :: rat
  assumes "v44 \<le> x" "x \<le> 1"
  shows "\<bar>fl (fl x * 100) - 100 * x\<bar> \<le> 300 * ulp53"
proof -
  note u = ulp53_facts
  have xpos: "0 \<le> x" using assms(1) u by linarith
  have e1: "\<bar>fl x - x\<bar> \<le> x * ulp53" by (rule fl_error_small[OF assms(1)])
  have xu: "x * ulp53 \<le> ulp53"
    using assms(2) u(1) by (simp add: mult_left_le_one_le)
  have yhigh: "fl x \<le> 2" using e1 xu assms(2) u(4) by linarith
  have ylow: "x - x * ulp53 \<le> fl x" using e1 by linarith
  have "x * ulp53 \<le> x * (1 / 100)"
    using u(4) xpos by (rule mult_left_mono)
  then have y100: "v44 \<le> fl x * 100" using ylow assms(1) xpos by linarith
  have e2: "\<bar>fl (fl x * 100) - fl x * 100\<bar> \<le> fl x * 100 * ulp53"
    by (rule fl_error_small[OF y100])
  have "fl x * ulp53 \<le> 2 * ulp53"
    using yhigh u(1) by (simp add: mult_right_mono)
  then have "fl x * 100 * ulp53 \<le> 200 * ulp53" by linarith
  with e1 e2 xu show ?thesis by linarith
qed


lemma inv_seconds:
  assumes "0 < seconds" "seconds \<le> 2 ^ 44"
  shows "v44 \<le> 1 / of_int seconds"
proof -
  have "(of_int seconds :: rat) \<le> of_int (2 ^ 44)" using assms(2) by (simp only: of_int_le_iff)
  then have le: "(of_int seconds :: rat) \<le> 2 ^ 44" by simp
  have pos: "(0::rat) < of_int seconds" using assms(1) by simp
  have "(1::rat) / 2 ^ 44 \<le> 1 / of_int seconds"
    using le pos by (intro divide_left_mono) simp_all
  then show ?thesis by (simp only: v44_def)
qed


subsection \<open>The countdown ring\<close>

text \<open>
  C5, as the code has it. The percentage is cut off by \<^verbatim>\<open>int(...)\<close>, not rounded: for
  a started segment with \<open>0 \<le> remaining \<le> total \<le> 2\<^sup>4\<^sup>4\<close> it is the integer quotient
  \<open>100 * (total - remaining) div total\<close>; only where the division leaves no remainder
  may the two roundings of the double arithmetic land just below the whole number and
  the ring show one less (28 for total 6000 and remaining 4260).
\<close>

theorem progress_percentage_truncates:
  assumes "0 < seconds" "0 \<le> remaining" "remaining \<le> seconds" "seconds \<le> 2 ^ 44"
  shows "progress_percentage (Some seconds) remaining
           = Some (100 * (seconds - remaining) div seconds) \<or>
         (seconds dvd 100 * (seconds - remaining) \<and>
          progress_percentage (Some seconds) remaining
            = Some (100 * (seconds - remaining) div seconds - 1))"
proof -
  define a where "a = seconds - remaining"
  define k where "k = 100 * a div seconds"
  define r where "r = 100 * a mod seconds"
  have a: "0 \<le> a" "a \<le> seconds" using assms by (simp_all add: a_def)
  have kr: "100 * a = k * seconds + r" by (simp add: k_def r_def)
  have r: "0 \<le> r" "r < seconds" using assms(1) by (simp_all add: r_def)
  have k0: "0 \<le> k" using a assms(1) by (simp add: k_def pos_imp_zdiv_nonneg_iff)
  have k100: "k \<le> 100"
  proof -
    have "100 * a div seconds \<le> 100 * seconds div seconds"
      using a assms(1) by (intro zdiv_mono1) simp_all
    then show ?thesis using assms(1) by (simp add: k_def)
  qed
  define x :: rat where "x = of_int a / of_int seconds"
  define z where "z = fl (fl x * 100)"
  define w :: rat where "w = 1 / of_int seconds"
  have pp: "progress_percentage (Some seconds) remaining = Some (max 0 (min 100 (py_int z)))"
    using assms(1) by (simp add: progress_percentage_def z_def x_def a_def)
  have tpos: "(0::rat) < of_int seconds" using assms(1) by simp
  have w: "v44 \<le> w" unfolding w_def by (rule inv_seconds[OF assms(1,4)])
  have w1: "w \<le> 1" using assms(1) by (simp add: w_def)
  note u = ulp53_facts
  show ?thesis
  proof (cases "a = 0")
    case True
    then have "z = 0" by (simp add: z_def x_def fl_zero)
    moreover have "k = 0" using True by (simp add: k_def)
    ultimately show ?thesis using pp by (simp add: py_int_def k_def a_def)
  next
    case False
    then have a1: "1 \<le> a" using a by simp
    have xa: "x = of_int a * w" by (simp add: x_def w_def)
    have "(1::rat) \<le> of_int a" using a1 by simp
    then have xlow: "w \<le> x"
      unfolding xa using w u by (simp add: mult_le_cancel_right1)
    have xhigh: "x \<le> 1" using a tpos by (simp add: x_def)
    have zE: "\<bar>z - 100 * x\<bar> \<le> 300 * ulp53"
      unfolding z_def using xlow w xhigh by (intro double_ratio_error) simp_all
    have E: "100 * x = of_int k + of_int r * w"
    proof -
      have "100 * x = of_int (100 * a) / of_int seconds" by (simp add: x_def)
      also have "\<dots> = of_int (k * seconds + r) / of_int seconds" by (simp only: kr)
      also have "\<dots> = of_int k + of_int r * w"
        using tpos by (simp add: add_divide_distrib w_def)
      finally show ?thesis .
    qed
    show ?thesis
    proof (cases "r = 0")
      case True
      then have dv: "seconds dvd 100 * a" by (simp add: r_def dvd_eq_mod_eq_0)
      have Ek: "100 * x = of_int k" using E True by simp
      have "of_int k - 1 < z" "z < of_int k + 1"
        using zE Ek u w w1 by linarith+
      from floor_between[OF this] have fz: "\<lfloor>z\<rfloor> = k \<or> \<lfloor>z\<rfloor> = k - 1" .
      have k1: "1 \<le> k"
      proof -
        have "k * seconds = 100 * a" using kr True by simp
        then have "0 < k * seconds" using a1 by simp
        then show ?thesis using assms(1) by (simp add: zero_less_mult_iff)
      qed
      then have "(1::rat) \<le> of_int k" by simp
      then have "0 \<le> z" using \<open>of_int k - 1 < z\<close> by linarith
      then have "py_int z = \<lfloor>z\<rfloor>" by (simp add: py_int_def)
      with fz k1 k100 dv pp show ?thesis
        by (auto simp: k_def a_def)
    next
      case False
      then have r1: "1 \<le> r" "r \<le> seconds - 1" using r by simp_all
      have wpos: "0 \<le> w" using w u by linarith
      have "(1::rat) \<le> of_int r" using r1(1) by simp
      then have f1: "w \<le> of_int r * w"
        using wpos by (simp add: mult_le_cancel_right1)
      have "(of_int r :: rat) \<le> of_int (seconds - 1)" using r1(2) by (simp only: of_int_le_iff)
      then have "(of_int r :: rat) * w \<le> of_int (seconds - 1) * w"
        using wpos by (rule mult_right_mono)
      also have "\<dots> = 1 - w" using tpos by (simp add: w_def diff_divide_distrib)
      finally have f2: "of_int r * w \<le> 1 - w" .
      have "of_int k < z" "z < of_int k + 1"
        using zE E f1 f2 u w by linarith+
      then have fz: "\<lfloor>z\<rfloor> = k" by (simp add: floor_unique)
      have "(0::rat) \<le> of_int k" using k0 by simp
      then have "0 \<le> z" using \<open>of_int k < z\<close> by linarith
      then have "py_int z = k" using fz by (simp add: py_int_def)
      with k0 k100 pp show ?thesis by (simp add: k_def a_def)
    qed
  qed
qed

theorem progress_percentage_truncates_witness:
  "(0::int) < 60 \<and> (0::int) \<le> 20 \<and> (20::int) \<le> 60 \<and> (60::int) \<le> 2 ^ 44 \<and>
   progress_percentage (Some 60) 20 = Some 66"
  using progress_percentage_truncates[of 60 20] by simp

text \<open>
  The claim as the spec words it (round to the nearest integer, then clamp) fails for an
  activity of one minute with 20 seconds remaining: two thirds is 66.67 percent, the
  ring shows 66, and rounding gives 67, whether the doubles or the exact quotient are
  rounded.
\<close>

theorem progress_percentage_round_counterexample:
  "progress_percentage (Some 60) 20 = Some 66 \<and>
   max 0 (min 100 (round_half_even (fl (fl (of_int (60 - 20) / of_int 60) * 100)))) = 67 \<and>
   max 0 (min 100 (round (of_int (60 - 20) / of_int 60 * 100 :: rat))) = (67::int)"
  by code_simp

lemma progress_percentage_one_less: "progress_percentage (Some 6000) 4260 = Some 28"
  by code_simp

subsection \<open>The input monitor\<close>






text \<open>
  Line 128 lists the codes 16, 17 and 18 of Shift, Ctrl and Alt, and not the codes 160
  to 165 of their left and right keys, which are in the key table as well. A sample that
  holds Shift under the code 16 alone does not emit; one that holds it under 16 and 160
  does.
\<close>

lemma side_modifier_press_emits:
  "pressed_codes (sample_holding [16, 160]) = [16, 160] \<and>
   emitted (check_user_activity (sample_holding [16])
              (start_listening (sample_holding []) initial_filter)) = 0 \<and>
   emitted (check_user_activity (sample_holding [16, 160])
              (start_listening (sample_holding []) initial_filter)) = 1"
  by code_simp

text \<open>When a button query raises, the poll stores nothing.\<close>

lemma button_query_raises:
  "check_user_activity
     \<lparr>cursor_pos = Some (11, 20), button_held = (\<lambda>vk. None), keys_held = None\<rparr>
     (start_listening (sample_holding []) initial_filter)
   = start_listening (sample_holding []) initial_filter"
  by (simp add: check_user_activity_def mouse_buttons_def start_listening_def sample_holding_def)

subsection \<open>The pointer auto-hide\<close>











lemma overlay_active_upd [simp]:
  "overlay_active (s\<lparr>mouse_stationary_time := t\<rparr>) = overlay_active s"
  "overlay_active (s\<lparr>last_mouse_position := q\<rparr>) = overlay_active s"
  "overlay_active (s\<lparr>mouse_hidden := h\<rparr>) = overlay_active s"
  "overlay_active (s\<lparr>cursor_calls := cs\<rparr>) = overlay_active s"
  by (simp_all add: overlay_active_def)










subsection \<open>The automation engine\<close>

lemma overlay_show_fields:
  "mode_switch_calls (show_blackboard env s) = mode_switch_calls s"
  "tip_window (show_blackboard env s) = tip_window s"
  "tip_timer (show_blackboard env s) = tip_timer s"
  "realtime_check_timer (show_blackboard env s) = realtime_check_timer s"
  "mode_switch_calls (show_whiteboard env s) = mode_switch_calls s"
  "tip_window (show_whiteboard env s) = tip_window s"
  "tip_timer (show_whiteboard env s) = tip_timer s"
  "realtime_check_timer (show_whiteboard env s) = realtime_check_timer s"
  by (cases "blackboard_ui env"; cases "whiteboard_ui env";
      simp add: show_blackboard_def show_whiteboard_def init_blackboard_ui_def
        init_whiteboard_ui_def init_mouse_detection_def)+

lemma execute_mode_switch_fields:
  "mode_switch_calls (execute_mode_switch env mode s) = mode_switch_calls s @ [mode]"
  "tip_window (execute_mode_switch env mode s) = tip_window s"
  "tip_timer (execute_mode_switch env mode s) = tip_timer s"
  "realtime_check_timer (execute_mode_switch env mode s) = realtime_check_timer s"
  by (simp_all add: execute_mode_switch_def overlay_show_fields
      close_blackboard_def close_whiteboard_def
      stop_mouse_detection_def show_mouse_def Let_def)

lemma show_tip_window_loads:
  assumes "tips_ui env = UiLoads"
  shows "tip_window (show_tip_window env message mode s) = Some True"
    and "tip_timer (show_tip_window env message mode s) = Some Running"
    and "realtime_check_timer (show_tip_window env message mode s) = Some Running"
    and "current_automation_mode (show_tip_window env message mode s) = Some mode"
    and "\<not> user_activity_detected (show_tip_window env message mode s)"
    and "mode_switch_calls (show_tip_window env message mode s) = mode_switch_calls s"
    and "current_lesson_name (show_tip_window env message mode s) = current_lesson_name s"
    and "previous_lesson_name (show_tip_window env message mode s) = previous_lesson_name s"
  using assms
  by (simp_all add: show_tip_window_def close_tip_window_def reset_user_activity_state_def Let_def)

lemma record_user_activity_fields:
  "user_activity_detected (record_user_activity s)"
  "tip_window (record_user_activity s) = tip_window s"
  "tip_timer (record_user_activity s) = tip_timer s"
  "realtime_check_timer (record_user_activity s) = realtime_check_timer s"
  "mode_switch_calls (record_user_activity s) = mode_switch_calls s"
  by (simp_all add: record_user_activity_def)

lemma handle_immediate_interruption_fields:
  "tip_timer (handle_immediate_interruption s) = None"
  "realtime_check_timer (handle_immediate_interruption s) = None"
  "mode_switch_calls (handle_immediate_interruption s) = mode_switch_calls s"
  by (simp_all add: handle_immediate_interruption_def close_tip_window_def Let_def)

lemma realtime_check_idle:
  assumes "armed s" "\<not> user_activity_detected s"
  shows "deliver env RealtimeCheck s = s"
proof -
  have "check_realtime_user_activity s = s"
    using assms by (simp add: check_realtime_user_activity_def armed_def split del: if_split)
  then show ?thesis using assms(1) by (simp add: deliver_def armed_def split del: if_split)
qed

lemma handle_automation_same_lesson:
  assumes "Current_Lesson ctx = Some name" "name \<noteq> []"
    and "current_lesson_name s = Some name" "previous_lesson_name s = Some name"
    and "automation_triggered s"
  shows "handle_automation env time_time today ctx s = s"
proof -
  have "s\<lparr>current_lesson_name := current_lesson_name s\<rparr> = s" by simp
  then have u: "s\<lparr>current_lesson_name := Some name\<rparr> = s" by (simp only: assms(3))
  have c: "check_automation_trigger env time_time today ctx s = Inr s"
    using assms(2,5) by (simp add: check_automation_trigger_def assms(3) split del: if_split)
  show ?thesis
    using assms(2)
    by (simp add: handle_automation_def Let_def assms(1) u assms(3,4) c split del: if_split)
qed

lemma quiet_deliver_other:
  assumes "automation_triggered s" "current_lesson_name s = Some name" "name \<noteq> []"
    and "quiet s ev" "ev \<noteq> RealtimeCheck"
  shows "deliver env ev s = s"
proof (cases ev)
  case (Tick time_time today ctx)
  with assms(4) have l: "Current_Lesson ctx = Some name" "previous_lesson_name s = Some name"
    by (simp_all add: quiet_def assms(2))
  from handle_automation_same_lesson[OF l(1) assms(3,2) l(2) assms(1)] show ?thesis
    by (simp add: Tick deliver_def)
next
  case UserActivity
  with assms(4) show ?thesis by (simp add: quiet_def)
next
  case RealtimeCheck
  with assms(5) show ?thesis by simp
next
  case TipTimeout
  with assms(4) show ?thesis by (simp add: quiet_def)
next
  case TipCloseFinished
  with assms(4) show ?thesis by (simp add: quiet_def deliver_def split del: if_split)
next
  case (SingleShotDue cb)
  with assms(4) show ?thesis by (simp add: quiet_def deliver_def split del: if_split)
qed

lemma quiet_deliver:
  assumes "armed s" "\<not> user_activity_detected s" "automation_triggered s"
    and "current_lesson_name s = Some name" "name \<noteq> []"
    and "quiet s ev"
  shows "deliver env ev s = s"
proof (cases "ev = RealtimeCheck")
  case True
  then show ?thesis by (simp only: realtime_check_idle[OF assms(1,2)])
next
  case False
  from quiet_deliver_other[OF assms(3,4,5,6) False] show ?thesis .
qed

lemma run_append: "run env (xs @ ys) s = run env ys (run env xs s)"
  by (induction xs arbitrary: s) simp_all

lemma run_quiet:
  assumes "armed s" "\<not> user_activity_detected s" "automation_triggered s"
    and "current_lesson_name s = Some name" "name \<noteq> []"
  shows "list_all (quiet s) evs \<Longrightarrow> run env evs s = s"
  by (induction evs) (simp_all add: quiet_deliver[OF assms])

lemma run_quiet_other:
  assumes "automation_triggered s" "current_lesson_name s = Some name" "name \<noteq> []"
  shows "list_all (quiet s) evs \<Longrightarrow> RealtimeCheck \<notin> set evs \<Longrightarrow> run env evs s = s"
proof (induction evs)
  case Nil
  show ?case by simp
next
  case (Cons ev evs)
  from Cons.prems have q: "quiet s ev" and n: "ev \<noteq> RealtimeCheck" by auto
  have d: "deliver env ev s = s" by (rule quiet_deliver_other[OF assms q n])
  from Cons.prems have "run env evs s = s" by (intro Cons.IH) auto
  then show ?case by (simp add: d)
qed

lemma quiet_record_user_activity: "quiet (record_user_activity s) ev = quiet s ev"
  by (cases ev) (simp_all add: quiet_def record_user_activity_def)

lemma run_after_activity:
  assumes "automation_triggered s" "current_lesson_name s = Some name" "name \<noteq> []"
    and "list_all (quiet s) evs" "RealtimeCheck \<notin> set evs"
  shows "run env (UserActivity # evs @ rest) s = run env rest (record_user_activity s)"
proof -
  let ?a = "record_user_activity s"
  have t: "automation_triggered ?a" "current_lesson_name ?a = Some name"
    using assms(1,2) by (simp_all add: record_user_activity_def)
  have q: "list_all (quiet ?a) evs"
    using assms(4) by (simp add: quiet_record_user_activity list_all_iff)
  have "run env evs ?a = ?a" by (rule run_quiet_other[OF t assms(3) q assms(5)])
  then show ?thesis by (simp add: run_append deliver_def)
qed

lemma activity_cancels:
  assumes "armed s"
  shows "tip_timer (run env [RealtimeCheck] (record_user_activity s)) = None"
    and "realtime_check_timer (run env [RealtimeCheck] (record_user_activity s)) = None"
    and "mode_switch_calls (run env [RealtimeCheck] (record_user_activity s))
           = mode_switch_calls s"
    and "mode_switch_calls (run env [RealtimeCheck, TipTimeout] (record_user_activity s))
           = mode_switch_calls s"
proof -
  let ?a = "record_user_activity s"
  have "check_realtime_user_activity ?a = handle_immediate_interruption ?a"
    using assms
    by (simp add: check_realtime_user_activity_def record_user_activity_fields armed_def
        split del: if_split)
  then have b: "deliver env RealtimeCheck ?a = handle_immediate_interruption ?a"
    using assms by (simp add: deliver_def record_user_activity_fields armed_def split del: if_split)
  have r: "run env [RealtimeCheck] ?a = handle_immediate_interruption ?a"
    by (simp add: b)
  show "tip_timer (run env [RealtimeCheck] ?a) = None"
    and "realtime_check_timer (run env [RealtimeCheck] ?a) = None"
    and c: "mode_switch_calls (run env [RealtimeCheck] ?a) = mode_switch_calls s"
    unfolding r
    by (simp_all add: handle_immediate_interruption_fields record_user_activity_fields)
  have "deliver env TipTimeout (handle_immediate_interruption ?a)
          = handle_immediate_interruption ?a"
    by (simp add: deliver_def handle_immediate_interruption_fields split del: if_split)
  then have "run env [RealtimeCheck, TipTimeout] ?a = run env [RealtimeCheck] ?a"
    by (simp add: b)
  then show "mode_switch_calls (run env [RealtimeCheck, TipTimeout] ?a) = mode_switch_calls s"
    by (simp only: c)
qed

lemma activity_before_deadline:
  assumes "armed s"
  shows "mode_switch_calls (run env [TipTimeout] (record_user_activity s)) = mode_switch_calls s"
proof -
  let ?a = "record_user_activity s"
  let ?f = "?a\<lparr>tip_timer := Some Fired\<rparr>"
  have d: "deliver env TipTimeout ?a = on_tip_timeout env ?f"
    using assms
    by (simp add: deliver_def armed_def record_user_activity_fields split del: if_split)
  have o: "on_tip_timeout env ?f
             = handle_immediate_interruption (?f\<lparr>realtime_check_timer := None\<rparr>)"
    by (simp add: on_tip_timeout_def Let_def record_user_activity_fields split del: if_split)
  show ?thesis
    by (simp add: d o handle_immediate_interruption_fields record_user_activity_fields)
qed

lemma timeout_commits:
  assumes "armed s" "\<not> user_activity_detected s"
  shows "mode_switch_calls (deliver env TipTimeout s)
           = mode_switch_calls s @ [current_automation_mode s]"
    and "deliver env TipTimeout (deliver env TipTimeout s) = deliver env TipTimeout s"
proof -
  let ?f = "s\<lparr>tip_timer := Some Fired\<rparr>"
  let ?g = "?f\<lparr>realtime_check_timer := None\<rparr>"
  have d: "deliver env TipTimeout s = on_tip_timeout env ?f"
    using assms(1) by (simp add: deliver_def armed_def split del: if_split)
  have o: "on_tip_timeout env ?f
             = close_tip_window (execute_mode_switch env (current_automation_mode s) ?g)"
    using assms(2) by (simp add: on_tip_timeout_def Let_def split del: if_split)
  have tw: "tip_window (execute_mode_switch env (current_automation_mode s) ?g) \<noteq> None"
    using assms(1) by (simp add: execute_mode_switch_fields armed_def)
  show "mode_switch_calls (deliver env TipTimeout s)
           = mode_switch_calls s @ [current_automation_mode s]"
    unfolding d o using tw
    by (simp add: close_tip_window_def Let_def execute_mode_switch_fields)
  have "tip_timer (deliver env TipTimeout s) = Some Fired"
    unfolding d o using tw
    by (simp add: close_tip_window_def Let_def execute_mode_switch_fields)
  then show "deliver env TipTimeout (deliver env TipTimeout s) = deliver env TipTimeout s"
    by (simp add: deliver_def[of env TipTimeout "deliver env TipTimeout s"] split del: if_split)
qed

lemma should_trigger_due:
  "due t time_time today ctx self \<Longrightarrow>
   should_trigger t
     (case lesson_start_time self of
        None \<Rightarrow> 0
      | Some start \<Rightarrow> (if start = 0 then 0 else fl (time_time - start)))
     (fst (snd (get_current_activity_time_info today ctx))) = Inr True"
  by (auto simp: due_def should_trigger_def split: if_splits option.splits)

lemma should_trigger_no_remaining:
  "t \<le> 0 \<Longrightarrow> should_trigger t elapsed None = Inl TypeError"
  by (simp add: should_trigger_def)

lemma check_automation_trigger_due:
  assumes "current_lesson_name self = Some name" "name \<noteq> []" "\<not> automation_triggered self"
    and "map_of (automation_settings self) name = Some r"
    and "setting_time r = Some t" "setting_click r = Some c" "setting_mode r = Some m"
    and "get_current_mode self \<noteq> m"
    and "due t time_time today ctx self"
  shows "check_automation_trigger env time_time today ctx self =
           (if c \<noteq> ''True'' \<and> user_activity_detected self
            then Inr (self\<lparr>automation_triggered := True\<rparr>)
            else Inr ((show_tip_window env
                   (if m = ''blackboard'' then SwitchToBlackboardTip
                    else if m = ''whiteboard'' then SwitchToWhiteboardTip
                    else CloseSpecialModeTip) m self)\<lparr>automation_triggered := True\<rparr>))"
proof -
  note st = should_trigger_due[OF assms(9)]
  have ta: "trigger_automation env m self =
      show_tip_window env
         (if m = ''blackboard'' then SwitchToBlackboardTip
          else if m = ''whiteboard'' then SwitchToWhiteboardTip
          else CloseSpecialModeTip) m self"
    using assms(8) by (simp add: trigger_automation_def Let_def split del: if_split)
  show ?thesis
    using assms(2,3,8)
    by (simp add: check_automation_trigger_def assms(1,4,5,6,7) Let_def st ta
        split del: if_split cong: if_cong)
qed


text \<open>
  C1, as the code has it. The rule's click value is read once, when the rule is due
  (line 1897): with a value other than \<open>True\<close>, activity recorded before suppresses the
  rule (the triggered flag is set and no window opens); otherwise the window opens.
  Nothing reads the value while the window is open. So also for a rule with click
  \<open>True\<close>, whatever the sign of its offset: an activity sample cancels at the next 20 ms
  check, whatever quiet events come before the sample and between the sample and the
  check (both timers are stopped, the deadline delivers nothing, no mode switch is
  made), and a deadline that comes before that check makes no switch either. When the
  events between the opening and the deadline are quiet ones (no activity sample, no
  change of lesson), the deadline makes the switch to the rule's mode exactly once. Real
  time is the order of the events.
\<close>

theorem armed_window_cancelled_by_activity:
  assumes "current_lesson_name self = Some name" "name \<noteq> []"
    and "\<not> automation_triggered self"
    and "map_of (automation_settings self) name = Some r"
    and "setting_time r = Some t" "setting_click r = Some c" "setting_mode r = Some m"
    and "get_current_mode self \<noteq> m"
    and "due t time_time today ctx self"
    and "tips_ui env = UiLoads"
  shows "(c = ''True'' \<or> \<not> user_activity_detected self \<longrightarrow>
          (\<exists>opened.
             check_automation_trigger env time_time today ctx self = Inr opened \<and>
             armed opened \<and> automation_triggered opened \<and>
             current_automation_mode opened = Some m \<and>
             mode_switch_calls opened = mode_switch_calls self \<and>
             (\<forall>evs evs'.
                list_all (quiet opened) evs \<and> list_all (quiet opened) evs' \<and>
                RealtimeCheck \<notin> set evs' \<longrightarrow>
                mode_switch_calls
                  (run env (evs @ UserActivity # evs' @ [RealtimeCheck, TipTimeout]) opened)
                    = mode_switch_calls self \<and>
                tip_timer (run env (evs @ UserActivity # evs' @ [RealtimeCheck]) opened)
                    = None \<and>
                realtime_check_timer
                  (run env (evs @ UserActivity # evs' @ [RealtimeCheck]) opened) = None \<and>
                mode_switch_calls (run env (evs @ UserActivity # evs' @ [TipTimeout]) opened)
                    = mode_switch_calls self) \<and>
             (\<forall>evs. list_all (quiet opened) evs \<longrightarrow>
                mode_switch_calls (run env (evs @ [TipTimeout]) opened)
                    = mode_switch_calls self @ [Some m] \<and>
                mode_switch_calls (run env (evs @ [TipTimeout, TipTimeout]) opened)
                    = mode_switch_calls self @ [Some m]))) \<and>
         (c \<noteq> ''True'' \<and> user_activity_detected self \<longrightarrow>
            check_automation_trigger env time_time today ctx self
              = Inr (self\<lparr>automation_triggered := True\<rparr>))"
proof -
  define message where "message =
     (if m = ''blackboard'' then SwitchToBlackboardTip
      else if m = ''whiteboard'' then SwitchToWhiteboardTip else CloseSpecialModeTip)"
  define opened where "opened = (show_tip_window env message m self)\<lparr>automation_triggered := True\<rparr>"
  note cat = check_automation_trigger_due[OF assms(1-9), of env]
  have suppressed: "c \<noteq> ''True'' \<and> user_activity_detected self \<longrightarrow>
            check_automation_trigger env time_time today ctx self
              = Inr (self\<lparr>automation_triggered := True\<rparr>)"
  proof
    assume "c \<noteq> ''True'' \<and> user_activity_detected self"
    then show "check_automation_trigger env time_time today ctx self
              = Inr (self\<lparr>automation_triggered := True\<rparr>)"
      unfolding cat by (simp only: simp_thms if_True)
  qed
  note w = show_tip_window_loads[OF assms(10), of message m self]
  have ar: "armed opened" using w by (simp add: armed_def opened_def)
  have noact: "\<not> user_activity_detected opened" using w by (simp add: opened_def)
  have calls: "mode_switch_calls opened = mode_switch_calls self" using w by (simp add: opened_def)
  have mode: "current_automation_mode opened = Some m" using w by (simp add: opened_def)
  have trig: "automation_triggered opened" by (simp add: opened_def)
  have cur: "current_lesson_name opened = Some name" using w assms(1) by (simp add: opened_def)
  have cancels: "mode_switch_calls
                  (run env (evs @ UserActivity # evs' @ [RealtimeCheck, TipTimeout]) opened)
                    = mode_switch_calls self \<and>
                tip_timer (run env (evs @ UserActivity # evs' @ [RealtimeCheck]) opened)
                    = None \<and>
                realtime_check_timer
                  (run env (evs @ UserActivity # evs' @ [RealtimeCheck]) opened) = None \<and>
                mode_switch_calls (run env (evs @ UserActivity # evs' @ [TipTimeout]) opened)
                    = mode_switch_calls self"
    if q: "list_all (quiet opened) evs \<and> list_all (quiet opened) evs' \<and>
           RealtimeCheck \<notin> set evs'" for evs evs'
  proof -
    from q have q1: "list_all (quiet opened) evs" and q2: "list_all (quiet opened) evs'"
      and q3: "RealtimeCheck \<notin> set evs'" by blast+
    note idle = run_quiet[OF ar noact trig cur assms(2) q1, of env]
    have after: "run env (evs @ UserActivity # evs' @ rest) opened
                   = run env rest (record_user_activity opened)" for rest
      by (simp only: run_append idle run_after_activity[OF trig cur assms(2) q2 q3])
    have x1: "mode_switch_calls
          (run env (evs @ UserActivity # evs' @ [RealtimeCheck, TipTimeout]) opened)
            = mode_switch_calls self"
      by (simp only: after activity_cancels(4)[OF ar] calls)
    have x2: "tip_timer (run env (evs @ UserActivity # evs' @ [RealtimeCheck]) opened) = None"
      by (simp only: after activity_cancels(1)[OF ar])
    have x3: "realtime_check_timer
          (run env (evs @ UserActivity # evs' @ [RealtimeCheck]) opened) = None"
      by (simp only: after activity_cancels(2)[OF ar])
    have x4: "mode_switch_calls (run env (evs @ UserActivity # evs' @ [TipTimeout]) opened)
            = mode_switch_calls self"
      by (simp only: after activity_before_deadline[OF ar] calls)
    show ?thesis by (intro conjI x1 x2 x3 x4)
  qed
  have commits: "mode_switch_calls (run env (evs @ [TipTimeout]) opened)
                    = mode_switch_calls self @ [Some m] \<and>
                mode_switch_calls (run env (evs @ [TipTimeout, TipTimeout]) opened)
                    = mode_switch_calls self @ [Some m]"
    if q: "list_all (quiet opened) evs" for evs
  proof -
    note idle = run_quiet[OF ar noact trig cur assms(2) q, of env]
    have commit1: "run env (evs @ [TipTimeout]) opened = deliver env TipTimeout opened"
      by (simp only: run_append idle run.simps)
    have commit2: "run env (evs @ [TipTimeout, TipTimeout]) opened
                     = deliver env TipTimeout opened"
      by (simp only: run_append idle run.simps timeout_commits(2)[OF ar noact])
    have x5: "mode_switch_calls (run env (evs @ [TipTimeout]) opened)
            = mode_switch_calls self @ [Some m]"
      by (simp only: commit1 timeout_commits(1)[OF ar noact] calls mode)
    have x6: "mode_switch_calls (run env (evs @ [TipTimeout, TipTimeout]) opened)
            = mode_switch_calls self @ [Some m]"
      by (simp only: commit2 timeout_commits(1)[OF ar noact] calls mode)
    show ?thesis by (intro conjI x5 x6)
  qed
  have opens: "c = ''True'' \<or> \<not> user_activity_detected self \<longrightarrow>
          (\<exists>opened.
             check_automation_trigger env time_time today ctx self = Inr opened \<and>
             armed opened \<and> automation_triggered opened \<and>
             current_automation_mode opened = Some m \<and>
             mode_switch_calls opened = mode_switch_calls self \<and>
             (\<forall>evs evs'.
                list_all (quiet opened) evs \<and> list_all (quiet opened) evs' \<and>
                RealtimeCheck \<notin> set evs' \<longrightarrow>
                mode_switch_calls
                  (run env (evs @ UserActivity # evs' @ [RealtimeCheck, TipTimeout]) opened)
                    = mode_switch_calls self \<and>
                tip_timer (run env (evs @ UserActivity # evs' @ [RealtimeCheck]) opened)
                    = None \<and>
                realtime_check_timer
                  (run env (evs @ UserActivity # evs' @ [RealtimeCheck]) opened) = None \<and>
                mode_switch_calls (run env (evs @ UserActivity # evs' @ [TipTimeout]) opened)
                    = mode_switch_calls self) \<and>
             (\<forall>evs. list_all (quiet opened) evs \<longrightarrow>
                mode_switch_calls (run env (evs @ [TipTimeout]) opened)
                    = mode_switch_calls self @ [Some m] \<and>
                mode_switch_calls (run env (evs @ [TipTimeout, TipTimeout]) opened)
                    = mode_switch_calls self @ [Some m]))"
  proof
    assume "c = ''True'' \<or> \<not> user_activity_detected self"
    then have "\<not> (c \<noteq> ''True'' \<and> user_activity_detected self)" by blast
    then have c: "check_automation_trigger env time_time today ctx self = Inr opened"
      unfolding cat opened_def message_def by (simp only: if_False)
    have a1: "\<forall>evs evs'.
                list_all (quiet opened) evs \<and> list_all (quiet opened) evs' \<and>
                RealtimeCheck \<notin> set evs' \<longrightarrow>
                mode_switch_calls
                  (run env (evs @ UserActivity # evs' @ [RealtimeCheck, TipTimeout]) opened)
                    = mode_switch_calls self \<and>
                tip_timer (run env (evs @ UserActivity # evs' @ [RealtimeCheck]) opened)
                    = None \<and>
                realtime_check_timer
                  (run env (evs @ UserActivity # evs' @ [RealtimeCheck]) opened) = None \<and>
                mode_switch_calls (run env (evs @ UserActivity # evs' @ [TipTimeout]) opened)
                    = mode_switch_calls self"
      by (intro allI impI) (rule cancels)
    have a2: "\<forall>evs. list_all (quiet opened) evs \<longrightarrow>
                mode_switch_calls (run env (evs @ [TipTimeout]) opened)
                    = mode_switch_calls self @ [Some m] \<and>
                mode_switch_calls (run env (evs @ [TipTimeout, TipTimeout]) opened)
                    = mode_switch_calls self @ [Some m]"
      by (intro allI impI) (rule commits)
    show "\<exists>opened.
             check_automation_trigger env time_time today ctx self = Inr opened \<and>
             armed opened \<and> automation_triggered opened \<and>
             current_automation_mode opened = Some m \<and>
             mode_switch_calls opened = mode_switch_calls self \<and>
             (\<forall>evs evs'.
                list_all (quiet opened) evs \<and> list_all (quiet opened) evs' \<and>
                RealtimeCheck \<notin> set evs' \<longrightarrow>
                mode_switch_calls
                  (run env (evs @ UserActivity # evs' @ [RealtimeCheck, TipTimeout]) opened)
                    = mode_switch_calls self \<and>
                tip_timer (run env (evs @ UserActivity # evs' @ [RealtimeCheck]) opened)
                    = None \<and>
                realtime_check_timer
                  (run env (evs @ UserActivity # evs' @ [RealtimeCheck]) opened) = None \<and>
                mode_switch_calls (run env (evs @ UserActivity # evs' @ [TipTimeout]) opened)
                    = mode_switch_calls self) \<and>
             (\<forall>evs. list_all (quiet opened) evs \<longrightarrow>
                mode_switch_calls (run env (evs @ [TipTimeout]) opened)
                    = mode_switch_calls self @ [Some m] \<and>
                mode_switch_calls (run env (evs @ [TipTimeout, TipTimeout]) opened)
                    = mode_switch_calls self @ [Some m])"
      using c ar trig mode calls a1 a2 by (intro exI[of _ opened] conjI)
  qed
  show ?thesis by (intro conjI opens suppressed)
qed

theorem armed_window_cancelled_by_activity_witness:
  "setting_click \<lparr>setting_time = Some 300, setting_click = Some ''True'',
                  setting_mode = Some ''whiteboard''\<rparr> = Some ''True'' \<and>
   due 300 1300 example_today ctx_math (plugin_with_rule 300 ''True'' ''whiteboard'') \<and>
   (\<exists>opened.
      check_automation_trigger example_env 1300 example_today ctx_math
        (plugin_with_rule 300 ''True'' ''whiteboard'') = Inr opened \<and>
      armed opened \<and>
      list_all (quiet opened)
        [RealtimeCheck, Tick 1301 example_today ctx_math, TipCloseFinished, RealtimeCheck] \<and>
      list_all (quiet opened) [Tick 1302 example_today ctx_math] \<and>
      mode_switch_calls
        (run example_env
           ([RealtimeCheck, Tick 1301 example_today ctx_math, TipCloseFinished, RealtimeCheck]
              @ UserActivity # [Tick 1302 example_today ctx_math]
              @ [RealtimeCheck, TipTimeout]) opened) = [] \<and>
      mode_switch_calls
        (run example_env
           ([RealtimeCheck, Tick 1301 example_today ctx_math, TipCloseFinished, RealtimeCheck]
              @ [TipTimeout]) opened) = [Some ''whiteboard''])"
proof -
  let ?p = "plugin_with_rule 300 ''True'' ''whiteboard''"
  let ?r = "\<lparr>setting_time = Some 300, setting_click = Some ''True'',
             setting_mode = Some ''whiteboard''\<rparr>"
  let ?evs = "[RealtimeCheck, Tick 1301 example_today ctx_math, TipCloseFinished, RealtimeCheck]"
  let ?evs' = "[Tick 1302 example_today ctx_math]"
  have h1: "current_lesson_name ?p = Some ''Math''" by (simp add: plugin_with_rule_def)
  have h3: "''Math'' \<noteq> []" by simp
  have h4: "\<not> automation_triggered ?p" by (simp add: plugin_with_rule_def initial_plugin_def)
  have h5: "map_of (automation_settings ?p) ''Math'' = Some ?r" by (simp add: plugin_with_rule_def)
  have h6: "setting_time ?r = Some 300" by simp
  have h7: "setting_click ?r = Some ''True''" by simp
  have h8: "setting_mode ?r = Some ''whiteboard''" by simp
  have h9: "get_current_mode ?p \<noteq> ''whiteboard''"
    by (simp add: plugin_with_rule_def initial_plugin_def get_current_mode_def)
  have h10: "due 300 1300 example_today ctx_math ?p" by code_simp
  have h11: "tips_ui example_env = UiLoads" by (simp add: example_env_def)
  have c0: "mode_switch_calls ?p = []" by (simp add: plugin_with_rule_def initial_plugin_def)
  have q0: "case check_automation_trigger example_env 1300 example_today ctx_math ?p of
              Inl e \<Rightarrow> False
            | Inr opened \<Rightarrow> list_all (quiet opened) ?evs \<and> list_all (quiet opened) ?evs'"
    by code_simp
  have r: "RealtimeCheck \<notin> set ?evs'" by simp
  from armed_window_cancelled_by_activity
         [OF h1 h3 h4 h5 h6 h7 h8 h9 h10 h11]
  obtain opened where
    o: "check_automation_trigger example_env 1300 example_today ctx_math ?p = Inr opened"
      "armed opened"
    and cancel: "\<And>evs evs'. list_all (quiet opened) evs \<and> list_all (quiet opened) evs' \<and>
          RealtimeCheck \<notin> set evs' \<Longrightarrow>
       mode_switch_calls
         (run example_env (evs @ UserActivity # evs' @ [RealtimeCheck, TipTimeout]) opened)
           = mode_switch_calls ?p"
    and commit: "\<And>evs. list_all (quiet opened) evs \<Longrightarrow>
       mode_switch_calls (run example_env (evs @ [TipTimeout]) opened)
           = mode_switch_calls ?p @ [Some ''whiteboard'']"
    by blast
  from q0 o(1) have q: "list_all (quiet opened) ?evs" "list_all (quiet opened) ?evs'"
    by simp_all
  from cancel[of ?evs ?evs'] q r c0 have x:
    "mode_switch_calls
        (run example_env (?evs @ UserActivity # ?evs' @ [RealtimeCheck, TipTimeout]) opened) = []"
    by simp
  from commit[OF q(1)] c0 have y:
    "mode_switch_calls (run example_env (?evs @ [TipTimeout]) opened) = [Some ''whiteboard'']"
    by simp
  from o q x y h7 h10 show ?thesis by (intro conjI exI[of _ opened])
qed

text \<open>
  The claim as the spec words it fails for the rule \<open>{time: 300, click: True, mode:
  whiteboard}\<close>: the tick at 300 s opens the window, an activity sample and the next check
  stop the deadline timer, and the deadline makes no switch.
\<close>

theorem click_rule_cancelled_counterexample:
  "map_of (automation_settings (plugin_with_rule 300 ''True'' ''whiteboard'')) ''Math''
     = Some \<lparr>setting_time = Some 300, setting_click = Some ''True'',
              setting_mode = Some ''whiteboard''\<rparr> \<and>
   tip_window (run example_env [Tick 1300 example_today ctx_math]
                 (plugin_with_rule 300 ''True'' ''whiteboard'')) = Some True \<and>
   tip_timer (run example_env [Tick 1300 example_today ctx_math]
                 (plugin_with_rule 300 ''True'' ''whiteboard'')) = Some Running \<and>
   tip_timer (run example_env [Tick 1300 example_today ctx_math, UserActivity, RealtimeCheck]
                 (plugin_with_rule 300 ''True'' ''whiteboard'')) = None \<and>
   mode_switch_calls
     (run example_env [Tick 1300 example_today ctx_math, UserActivity, RealtimeCheck, TipTimeout]
        (plugin_with_rule 300 ''True'' ''whiteboard'')) = []"
  by code_simp

text \<open>
  A rule with a negative offset opens the same window, 1500 s before the end of the
  lesson; and a change of lesson while the window is open closes it, so that the
  deadline makes no switch.
\<close>

lemma remaining_rule_window_example:
  "due (- 1500) 1300 example_today ctx_math (plugin_with_rule (- 1500) ''True'' ''whiteboard'') \<and>
   tip_timer (run example_env [Tick 1300 example_today ctx_math]
                (plugin_with_rule (- 1500) ''True'' ''whiteboard'')) = Some Running \<and>
   mode_switch_calls
     (run example_env [Tick 1300 example_today ctx_math, UserActivity, RealtimeCheck, TipTimeout]
        (plugin_with_rule (- 1500) ''True'' ''whiteboard'')) = [] \<and>
   mode_switch_calls
     (run example_env [Tick 1300 example_today ctx_math, RealtimeCheck, TipTimeout, TipTimeout]
        (plugin_with_rule (- 1500) ''True'' ''whiteboard'')) = [Some ''whiteboard'']"
  by code_simp

lemma lesson_change_closes_window:
  "tip_timer (run example_env [Tick 1300 example_today ctx_math]
                (plugin_with_rule 300 ''True'' ''whiteboard'')) = Some Running \<and>
   mode_switch_calls
     (run example_env
        [Tick 1300 example_today ctx_math,
         Tick 1301 example_today (ctx_math\<lparr>Current_Lesson := Some ''Art''\<rparr>),
         TipCloseFinished, TipTimeout]
        (plugin_with_rule 300 ''True'' ''whiteboard'')) = []"
  by code_simp

text \<open>
  C4, as the code has it. For a rule with a non-positive offset, when the time
  information has no remaining seconds, the comparison of line 1889 raises TypeError,
  which \<open>handle_automation\<close> catches: nothing is opened, nothing is switched, the object
  is as before. The test against the current mode comes before it (lines 1857-1861):
  when the plugin is already in the rule's mode, the triggered flag is set, and nothing
  else changes.
\<close>

theorem remaining_trigger_without_remaining_time:
  assumes "fst (snd (get_current_activity_time_info today ctx)) = None"
    and "current_lesson_name self = Some name"
    and "map_of (automation_settings self) name = Some r"
    and "(case setting_time r of None \<Rightarrow> 0 | Some t \<Rightarrow> t) \<le> 0"
  shows "check_automation_trigger env time_time today ctx self = Inl TypeError \<or>
         check_automation_trigger env time_time today ctx self = Inr self \<or>
         (get_current_mode self = (case setting_mode r of None \<Rightarrow> ''none'' | Some m \<Rightarrow> m) \<and>
          check_automation_trigger env time_time today ctx self
            = Inr (self\<lparr>automation_triggered := True\<rparr>))"
proof -
  define target where "target = (case setting_mode r of None \<Rightarrow> ''none'' | Some m \<Rightarrow> m)"
  define trigger_time where "trigger_time = (case setting_time r of None \<Rightarrow> 0 | Some t \<Rightarrow> t)"
  define empty where "empty \<longleftrightarrow>
     setting_time r = None \<and> setting_click r = None \<and> setting_mode r = None"
  have st: "should_trigger trigger_time e None = Inl TypeError" for e
    using assms(4) unfolding trigger_time_def by (rule should_trigger_no_remaining)
  have unfold: "check_automation_trigger env time_time today ctx self =
     (if name = [] then Inr self
      else if automation_triggered self then Inr self
      else if empty then Inr self
      else if get_current_mode self = target then Inr (self\<lparr>automation_triggered := True\<rparr>)
      else Inl TypeError)"
    by (simp add: check_automation_trigger_def assms(1,2,3) Let_def st
        flip: target_def trigger_time_def empty_def split del: if_split cong: if_cong)
  consider "name = []" | "name \<noteq> []" "automation_triggered self"
    | "name \<noteq> []" "\<not> automation_triggered self" "empty"
    | "name \<noteq> []" "\<not> automation_triggered self" "\<not> empty" "get_current_mode self = target"
    | "name \<noteq> []" "\<not> automation_triggered self" "\<not> empty" "get_current_mode self \<noteq> target"
    by blast
  then show ?thesis
  proof cases
    case 1
    then have "check_automation_trigger env time_time today ctx self = Inr self"
      unfolding unfold by (simp only: simp_thms if_True if_False)
    then show ?thesis by (rule disjI2[OF disjI1])
  next
    case 2
    then have "check_automation_trigger env time_time today ctx self = Inr self"
      unfolding unfold by (simp only: simp_thms if_True if_False)
    then show ?thesis by (rule disjI2[OF disjI1])
  next
    case 3
    then have "check_automation_trigger env time_time today ctx self = Inr self"
      unfolding unfold by (simp only: simp_thms if_True if_False)
    then show ?thesis by (rule disjI2[OF disjI1])
  next
    case 4
    then have "check_automation_trigger env time_time today ctx self
                 = Inr (self\<lparr>automation_triggered := True\<rparr>)"
      unfolding unfold by (simp only: simp_thms if_True if_False)
    with 4(4) show ?thesis unfolding target_def by (intro disjI2 conjI)
  next
    case 5
    then have "check_automation_trigger env time_time today ctx self = Inl TypeError"
      unfolding unfold by (simp only: simp_thms if_True if_False)
    then show ?thesis by (rule disjI1)
  qed
qed

theorem remaining_trigger_without_remaining_time_witness:
  "fst (snd (get_current_activity_time_info example_today ctx_no_anchor)) = None \<and>
   current_lesson_name (plugin_with_rule (- 60) ''False'' ''blackboard'') = Some ''Math'' \<and>
   map_of (automation_settings (plugin_with_rule (- 60) ''False'' ''blackboard'')) ''Math''
     = Some \<lparr>setting_time = Some (- 60), setting_click = Some ''False'',
              setting_mode = Some ''blackboard''\<rparr> \<and>
   check_automation_trigger example_env 1300 example_today ctx_no_anchor
     (plugin_with_rule (- 60) ''False'' ''blackboard'') = Inl TypeError \<and>
   handle_automation example_env 1300 example_today ctx_no_anchor
     (plugin_with_rule (- 60) ''False'' ''blackboard'')
       = plugin_with_rule (- 60) ''False'' ''blackboard''"
proof -
  let ?p = "plugin_with_rule (- 60) ''False'' ''blackboard''"
  let ?r = "\<lparr>setting_time = Some (- 60), setting_click = Some ''False'',
             setting_mode = Some ''blackboard''\<rparr>"
  have h1: "fst (snd (get_current_activity_time_info example_today ctx_no_anchor)) = None"
    by code_simp
  have h2: "current_lesson_name ?p = Some ''Math''" by (simp add: plugin_with_rule_def)
  have h3: "map_of (automation_settings ?p) ''Math'' = Some ?r" by (simp add: plugin_with_rule_def)
  have h4: "(case setting_time ?r of None \<Rightarrow> 0 | Some t \<Rightarrow> t) \<le> 0" by simp
  have trig: "\<not> automation_triggered ?p" by (simp add: plugin_with_rule_def initial_plugin_def)
  have mode: "get_current_mode ?p \<noteq> ''blackboard''"
    by (simp add: plugin_with_rule_def initial_plugin_def get_current_mode_def)
  have ne: "check_automation_trigger example_env 1300 example_today ctx_no_anchor ?p \<noteq> Inr ?p"
    by code_simp
  from remaining_trigger_without_remaining_time[OF h1 h2 h3 h4, of example_env 1300] mode ne
  have c: "check_automation_trigger example_env 1300 example_today ctx_no_anchor ?p = Inl TypeError"
    by simp
  have h: "handle_automation example_env 1300 example_today ctx_no_anchor ?p = ?p"
    by code_simp
  show ?thesis using h1 h2 h3 c h by (intro conjI)
qed

text \<open>
  The claim as the spec words it (the triggered flag is left unchanged) fails for the
  rule \<open>{time: -60, click: False, mode: none}\<close> with no overlay shown and no node anchor.
\<close>

theorem remaining_trigger_flag_counterexample:
  "fst (snd (get_current_activity_time_info example_today ctx_no_anchor)) = None \<and>
   map_of (automation_settings (plugin_with_rule (- 60) ''False'' ''none'')) ''Math''
     = Some \<lparr>setting_time = Some (- 60), setting_click = Some ''False'',
              setting_mode = Some ''none''\<rparr> \<and>
   automation_triggered (plugin_with_rule (- 60) ''False'' ''none'') = False \<and>
   automation_triggered
     (handle_automation example_env 1300 example_today ctx_no_anchor
        (plugin_with_rule (- 60) ''False'' ''none'')) = True \<and>
   tip_window
     (handle_automation example_env 1300 example_today ctx_no_anchor
        (plugin_with_rule (- 60) ''False'' ''none'')) = None"
  by code_simp

subsection \<open>The current mode\<close>

text \<open>
  C10. The current-mode query returns exactly one of the three mode names, and it
  answers blackboard when both mode flags are set at once: blackboard is tested first.
\<close>

theorem get_current_mode_total:
  "get_current_mode self \<in> {''blackboard'', ''whiteboard'', ''none''} \<and>
   (is_blackboard_mode self \<and> is_whiteboard_mode self \<longrightarrow>
      get_current_mode self = ''blackboard'')"
  by (simp add: get_current_mode_def)

theorem get_current_mode_total_witness:
  "is_blackboard_mode (initial_plugin\<lparr>is_blackboard_mode := True, is_whiteboard_mode := True\<rparr>) \<and>
   is_whiteboard_mode (initial_plugin\<lparr>is_blackboard_mode := True, is_whiteboard_mode := True\<rparr>) \<and>
   get_current_mode (initial_plugin\<lparr>is_blackboard_mode := True, is_whiteboard_mode := True\<rparr>)
     = ''blackboard''"
  using get_current_mode_total
    [of "initial_plugin\<lparr>is_blackboard_mode := True, is_whiteboard_mode := True\<rparr>"]
  by simp

end
